theory Spec2Isabelle
  imports Complex_Main "HOL-Library.AList"
begin

section \<open>Python values\<close>

text \<open>
  Both scripts work on what \<open>json.load\<close> returns. A JSON document is a value of the
  datatype below; an object is an association list in insertion order, as a Python
  \<open>dict\<close> keeps it. Floating point numbers are left out of the embedding.
\<close>

datatype json =
    JNull
  | JBool bool
  | JInt int
  | JStr string
  | JArr "json list"
  | JObj "(string \<times> json) list"

text \<open>The exceptions the two scripts can meet.\<close>

datatype py_error =
    KeyError
  | TypeError
  | AttributeError
  | ZeroDivisionError
  | OSError
  | JSONDecodeError
  | RequestException

text \<open>
  A value used as a dictionary key or a set member is hashed first. Lists and dicts
  are unhashable (\<open>TypeError\<close>). Python compares \<open>True == 1\<close> and \<open>False == 0\<close>,
  so a Boolean key is the same key as the integer.
\<close>

datatype pykey = KNone | KInt int | KStr string

fun py_hash :: "json \<Rightarrow> py_error + pykey" where
  "py_hash JNull = Inr KNone"
| "py_hash (JBool b) = Inr (KInt (if b then 1 else 0))"
| "py_hash (JInt i) = Inr (KInt i)"
| "py_hash (JStr s) = Inr (KStr s)"
| "py_hash (JArr xs) = Inl TypeError"
| "py_hash (JObj d) = Inl TypeError"

text \<open>Truthiness, as \<open>if avatar_url:\<close> tests it.\<close>

fun py_truthy :: "json \<Rightarrow> bool" where
  "py_truthy JNull = False"
| "py_truthy (JBool b) = b"
| "py_truthy (JInt i) = (i \<noteq> 0)"
| "py_truthy (JStr s) = (s \<noteq> [])"
| "py_truthy (JArr xs) = (xs \<noteq> [])"
| "py_truthy (JObj d) = (d \<noteq> [])"

text \<open>\<open>k in s\<close> for two strings: \<open>k\<close> occurs in \<open>s\<close> as a contiguous block.\<close>

definition py_substring :: "string \<Rightarrow> string \<Rightarrow> bool" where
  "py_substring k s = list_ex (\<lambda>i. take (length k) (drop i s) = k) [0..<Suc (length s)]"

text \<open>\<open>k in v\<close> for a string \<open>k\<close>: a key of a dict, an element of a list, a substring
  of a string; any other value is not iterable.\<close>

fun py_contains :: "json \<Rightarrow> string \<Rightarrow> py_error + bool" where
  "py_contains (JObj d) k = Inr (k \<in> fst ` set d)"
| "py_contains (JArr xs) k = Inr (JStr k \<in> set xs)"
| "py_contains (JStr s) k = Inr (py_substring k s)"
| "py_contains JNull k = Inl TypeError"
| "py_contains (JBool b) k = Inl TypeError"
| "py_contains (JInt i) k = Inl TypeError"

text \<open>\<open>v[k]\<close> for a string \<open>k\<close>: only a dict can be indexed by a string.\<close>

fun py_getitem :: "json \<Rightarrow> string \<Rightarrow> py_error + json" where
  "py_getitem (JObj d) k = (case map_of d k of None \<Rightarrow> Inl KeyError | Some v \<Rightarrow> Inr v)"
| "py_getitem JNull k = Inl TypeError"
| "py_getitem (JBool b) k = Inl TypeError"
| "py_getitem (JInt i) k = Inl TypeError"
| "py_getitem (JStr s) k = Inl TypeError"
| "py_getitem (JArr xs) k = Inl TypeError"

text \<open>\<open>for item in v\<close>: the elements of a list, the keys of a dict, the characters of
  a string.\<close>

fun py_iter :: "json \<Rightarrow> py_error + json list" where
  "py_iter (JArr xs) = Inr xs"
| "py_iter (JObj d) = Inr (map (\<lambda>p. JStr (fst p)) d)"
| "py_iter (JStr s) = Inr (map (\<lambda>c. JStr [c]) s)"
| "py_iter JNull = Inl TypeError"
| "py_iter (JBool b) = Inl TypeError"
| "py_iter (JInt i) = Inl TypeError"

text \<open>\<open>len(v)\<close>: lists, dicts and strings have a length (of a string, the
  number of characters of the model).\<close>

fun py_len :: "json \<Rightarrow> py_error + nat" where
  "py_len (JArr xs) = Inr (length xs)"
| "py_len (JObj d) = Inr (length d)"
| "py_len (JStr s) = Inr (length s)"
| "py_len JNull = Inl TypeError"
| "py_len (JBool b) = Inl TypeError"
| "py_len (JInt i) = Inl TypeError"

text \<open>\<open>v[k] = x\<close> for a string \<open>k\<close>: a dict replaces the value of an existing key
  where it stands and appends a new key at the end, which is \<open>AList.update\<close>; no
  other value can be assigned at a string.\<close>

fun py_setitem :: "json \<Rightarrow> string \<Rightarrow> json \<Rightarrow> py_error + json" where
  "py_setitem (JObj d) k x = Inr (JObj (AList.update k x d))"
| "py_setitem JNull k x = Inl TypeError"
| "py_setitem (JBool b) k x = Inl TypeError"
| "py_setitem (JInt i) k x = Inl TypeError"
| "py_setitem (JStr s) k x = Inl TypeError"
| "py_setitem (JArr xs) k x = Inl TypeError"

text \<open>\<open>range(start, stop, step)\<close> for a positive step (the fetcher's step is the
  constant 50; Python refuses a step of zero).\<close>

function py_range :: "nat \<Rightarrow> nat \<Rightarrow> nat \<Rightarrow> nat list" where
  "py_range i stop step =
     (if step = 0 \<or> stop \<le> i then [] else i # py_range (i + step) stop step)"
  by pat_completeness auto
termination
  by (relation "measure (\<lambda>(i, stop, step). stop - i)") auto

declare py_range.simps [simp del]

text \<open>\<open>xs[i:j]\<close> for non-negative bounds.\<close>

definition py_slice :: "'a list \<Rightarrow> nat \<Rightarrow> nat \<Rightarrow> 'a list" where
  "py_slice xs i j = take (j - i) (drop i xs)"

text \<open>\<open>sep.join(xs)\<close> on a list of strings.\<close>

fun py_join :: "string \<Rightarrow> string list \<Rightarrow> string" where
  "py_join sep [] = []"
| "py_join sep [x] = x"
| "py_join sep (x # y # ys) = x @ sep @ py_join sep (y # ys)"

section \<open>fetch\_channel\_avatars.py\<close>

subsection \<open>Configuration\<close>

definition DATA_JSON_PATH :: string where
  "DATA_JSON_PATH = ''data.json''"

definition BACKUP_PATH :: string where
  "BACKUP_PATH = ''data_backup.json''"

definition YOUTUBE_API_BASE :: string where
  "YOUTUBE_API_BASE = ''https://www.googleapis.com/youtube/v3''"

definition PLACEHOLDER_KEY :: string where
  "PLACEHOLDER_KEY = ''YOUR_YOUTUBE_API_KEY_HERE''"

text \<open>A video record is a dict; the avatar mapping is a dict from channel id to URL.\<close>

type_synonym video = "(string \<times> json) list"
type_synonym avatars = "(pykey \<times> json) list"

subsection \<open>The Batch Fetcher\<close>

text \<open>
  One call of \<open>requests.get(url, params=params)\<close>. The network is a parameter: given
  the number of requests issued before and the request, it answers with the parsed
  body (\<open>response.json()\<close>) or with the exception that \<open>requests.get\<close>,
  \<open>raise_for_status\<close> or \<open>json()\<close> raised.
\<close>

record request =
  req_url :: string
  req_params :: "(string \<times> string) list"

type_synonym network = "nat \<Rightarrow> request \<Rightarrow> py_error + json"

definition channels_request :: "string \<Rightarrow> string list \<Rightarrow> request" where
  "channels_request api_key batch =
     \<lparr> req_url = YOUTUBE_API_BASE @ ''/channels'',
       req_params = [(''part'', ''snippet''),
                     (''id'', py_join '','' batch),
                     (''key'', api_key),
                     (''fields'', ''items(id,snippet(title,thumbnails))'')] \<rparr>"

text \<open>The inner loop \<open>for quality in ['high', 'medium', 'default']\<close>; the result
  \<open>None\<close> is Python's \<open>None\<close>, the initial value of \<open>avatar_url\<close>.\<close>

fun select_avatar :: "string list \<Rightarrow> json \<Rightarrow> py_error + json option" where
  "select_avatar [] thumbnails = Inr None"
| "select_avatar (quality # rest) thumbnails =
     (case py_contains thumbnails quality of
        Inl e \<Rightarrow> Inl e
      | Inr False \<Rightarrow> select_avatar rest thumbnails
      | Inr True \<Rightarrow>
          (case py_getitem thumbnails quality of
             Inl e \<Rightarrow> Inl e
           | Inr t \<Rightarrow>
               (case py_getitem t ''url'' of
                  Inl e \<Rightarrow> Inl e
                | Inr u \<Rightarrow> Inr (Some u))))"

definition QUALITIES :: "string list" where
  "QUALITIES = [''high'', ''medium'', ''default'']"

text \<open>The body of \<open>for item in data['items']\<close>: the new \<open>avatar_urls\<close>, or the
  exception raised.\<close>

definition process_item :: "json \<Rightarrow> avatars \<Rightarrow> py_error + avatars" where
  "process_item item avatar_urls =
     (case py_getitem item ''id'' of
        Inl e \<Rightarrow> Inl e
      | Inr channel_id \<Rightarrow>
     (case py_getitem item ''snippet'' of
        Inl e \<Rightarrow> Inl e
      | Inr snippet \<Rightarrow>
     (case py_getitem snippet ''title'' of
        Inl e \<Rightarrow> Inl e
      | Inr channel_title \<Rightarrow>
     (case py_getitem snippet ''thumbnails'' of
        Inl e \<Rightarrow> Inl e
      | Inr thumbnails \<Rightarrow>
     (case select_avatar QUALITIES thumbnails of
        Inl e \<Rightarrow> Inl e
      | Inr None \<Rightarrow> Inr avatar_urls
      | Inr (Some avatar_url) \<Rightarrow>
          if py_truthy avatar_url
          then (case py_hash channel_id of
                  Inl e \<Rightarrow> Inl e
                | Inr k \<Rightarrow> Inr (AList.update k avatar_url avatar_urls))
          else Inr avatar_urls)))))"

text \<open>The loop over the items. An exception leaves the loop; what was stored before
  it stays in \<open>avatar_urls\<close>, which is returned with the exception.\<close>

fun process_items :: "json list \<Rightarrow> avatars \<Rightarrow> avatars \<times> py_error option" where
  "process_items [] avatar_urls = (avatar_urls, None)"
| "process_items (item # rest) avatar_urls =
     (case process_item item avatar_urls of
        Inl e \<Rightarrow> (avatar_urls, Some e)
      | Inr avatar_urls' \<Rightarrow> process_items rest avatar_urls')"

text \<open>The part of the \<open>try\<close> block after \<open>data = response.json()\<close> that writes
  \<open>avatar_urls\<close>. The check for missing ids that follows it only prints.\<close>

definition process_response :: "json \<Rightarrow> avatars \<Rightarrow> avatars \<times> py_error option" where
  "process_response data avatar_urls =
     (case py_contains data ''items'' of
        Inl e \<Rightarrow> (avatar_urls, Some e)
      | Inr False \<Rightarrow> (avatar_urls, None)
      | Inr True \<Rightarrow>
          (case py_getitem data ''items'' of
             Inl e \<Rightarrow> (avatar_urls, Some e)
           | Inr items \<Rightarrow>
               (case py_iter items of
                  Inl e \<Rightarrow> (avatar_urls, Some e)
                | Inr its \<Rightarrow> process_items its avatar_urls)))"

text \<open>
  The loop \<open>for i in range(0, len(channel_ids), batch_size)\<close>. The state is
  \<open>avatar_urls\<close> and the requests issued so far. Both \<open>except\<close> clauses
  \<open>continue\<close>, so an exception of the request or of the processing ends the
  iteration and nothing else. Each issued request is recorded with the batch it was
  built from.
\<close>

type_synonym issued = "(string list \<times> request) list"

fun fetch_loop ::
  "network \<Rightarrow> string \<Rightarrow> string list \<Rightarrow> nat \<Rightarrow> nat list \<Rightarrow> avatars \<times> issued
     \<Rightarrow> avatars \<times> issued" where
  "fetch_loop net api_key channel_ids batch_size [] st = st"
| "fetch_loop net api_key channel_ids batch_size (i # is) st =
     (let avatar_urls = fst st; issued = snd st;
          batch = py_slice channel_ids i (i + batch_size);
          req = channels_request api_key batch
      in case net (length issued) req of
           Inl e \<Rightarrow>
             fetch_loop net api_key channel_ids batch_size is
               (avatar_urls, issued @ [(batch, req)])
         | Inr data \<Rightarrow>
             fetch_loop net api_key channel_ids batch_size is
               (fst (process_response data avatar_urls), issued @ [(batch, req)]))"

text \<open>How a call ends: it returns, it leaves through \<open>sys.exit(status)\<close>, or an
  exception escapes.\<close>

datatype 'a outcome = Return 'a | SysExit int | Uncaught py_error

definition fetch_channel_avatars_batch ::
  "network \<Rightarrow> string \<Rightarrow> string list \<Rightarrow> (avatars \<times> issued) outcome" where
  "fetch_channel_avatars_batch net api_key channel_ids =
     (if api_key = [] \<or> api_key = PLACEHOLDER_KEY then SysExit 1
      else let batch_size = 50
           in Return (fetch_loop net api_key channel_ids batch_size
                        (py_range 0 (length channel_ids) batch_size) ([], [])))"

subsection \<open>The Deduplicator\<close>

text \<open>The loop of \<open>extract_unique_channel_ids\<close>; \<open>channel_ids.add\<close> hashes the value.\<close>

fun extract_loop :: "video list \<Rightarrow> pykey set \<Rightarrow> py_error + pykey set" where
  "extract_loop [] channel_ids = Inr channel_ids"
| "extract_loop (item # rest) channel_ids =
     (case map_of item ''channelId'' of
        None \<Rightarrow> extract_loop rest channel_ids
      | Some cid \<Rightarrow>
          (case py_hash cid of
             Inl e \<Rightarrow> Inl e
           | Inr k \<Rightarrow> extract_loop rest (insert k channel_ids)))"

definition extract_unique_channel_ids :: "video list \<Rightarrow> py_error + pykey set" where
  "extract_unique_channel_ids data = extract_loop data {}"

text \<open>
  The function is typed above as the source annotates it (\<open>List[Dict]\<close>), but
  \<open>json.load\<close> hands it whatever document the file holds, and nothing checks the
  shape. The same loop on arbitrary items: \<open>'channelId' in item\<close> and
  \<open>item['channelId']\<close> are the operations of Python on the value met.
\<close>

fun extract_items :: "json list \<Rightarrow> pykey set \<Rightarrow> py_error + pykey set" where
  "extract_items [] channel_ids = Inr channel_ids"
| "extract_items (item # rest) channel_ids =
     (case py_contains item ''channelId'' of
        Inl e \<Rightarrow> Inl e
      | Inr False \<Rightarrow> extract_items rest channel_ids
      | Inr True \<Rightarrow>
          (case py_getitem item ''channelId'' of
             Inl e \<Rightarrow> Inl e
           | Inr cid \<Rightarrow>
               (case py_hash cid of
                  Inl e \<Rightarrow> Inl e
                | Inr k \<Rightarrow> extract_items rest (insert k channel_ids))))"

definition extract_unique_channel_ids_json :: "json \<Rightarrow> py_error + pykey set" where
  "extract_unique_channel_ids_json data =
     (case py_iter data of
        Inl e \<Rightarrow> Inl e
      | Inr items \<Rightarrow> extract_items items {})"

subsection \<open>The Merger\<close>

text \<open>
  \<open>enrich_data_with_avatars\<close> mutates the records of \<open>data\<close> in place. The model
  returns the list as the loop leaves it, the count, and the exception if one ended
  the loop (then the records after the failing one are untouched). Assigning
  \<open>item['channelAvatarUrl']\<close> replaces the value of an existing key where it stands
  and appends a new key at the end, which is \<open>AList.update\<close>. The record, changed
  or not, stays at its place in front of the records after it (\<open>apfst ((#) item)\<close>).
\<close>

fun enrich_loop :: "video list \<Rightarrow> avatars \<Rightarrow> nat \<Rightarrow> video list \<times> nat \<times> py_error option" where
  "enrich_loop [] avatar_urls enriched_count = ([], enriched_count, None)"
| "enrich_loop (item # rest) avatar_urls enriched_count =
     (case map_of item ''channelId'' of
        None \<Rightarrow> apfst ((#) item) (enrich_loop rest avatar_urls enriched_count)
      | Some cid \<Rightarrow>
          (case py_hash cid of
             Inl err \<Rightarrow> (item # rest, enriched_count, Some err)
           | Inr k \<Rightarrow>
               (case map_of avatar_urls k of
                  None \<Rightarrow> apfst ((#) item) (enrich_loop rest avatar_urls enriched_count)
                | Some url \<Rightarrow>
                    apfst ((#) (AList.update ''channelAvatarUrl'' url item))
                      (enrich_loop rest avatar_urls (enriched_count + 1)))))"

definition enrich_data_with_avatars ::
  "video list \<Rightarrow> avatars \<Rightarrow> video list \<times> nat \<times> py_error option" where
  "enrich_data_with_avatars data avatar_urls = enrich_loop data avatar_urls 0"

text \<open>
  The same loop on arbitrary items. Only an item that is a dict can reach the
  assignment. When the document is a list its items are mutated in place; the items
  met when iterating over a dict or a string are its keys or characters, and the
  document stays as it is.
\<close>

fun enrich_items :: "json list \<Rightarrow> avatars \<Rightarrow> nat \<Rightarrow> json list \<times> nat \<times> py_error option" where
  "enrich_items [] avatar_urls enriched_count = ([], enriched_count, None)"
| "enrich_items (item # rest) avatar_urls enriched_count =
     (case py_contains item ''channelId'' of
        Inl err \<Rightarrow> (item # rest, enriched_count, Some err)
      | Inr False \<Rightarrow> apfst ((#) item) (enrich_items rest avatar_urls enriched_count)
      | Inr True \<Rightarrow>
          (case py_getitem item ''channelId'' of
             Inl err \<Rightarrow> (item # rest, enriched_count, Some err)
           | Inr cid \<Rightarrow>
               (case py_hash cid of
                  Inl err \<Rightarrow> (item # rest, enriched_count, Some err)
                | Inr k \<Rightarrow>
                    (case map_of avatar_urls k of
                       None \<Rightarrow> apfst ((#) item) (enrich_items rest avatar_urls enriched_count)
                     | Some url \<Rightarrow>
                         (case py_setitem item ''channelAvatarUrl'' url of
                            Inl err \<Rightarrow> (item # rest, enriched_count, Some err)
                          | Inr item' \<Rightarrow>
                              apfst ((#) item')
                                (enrich_items rest avatar_urls (enriched_count + 1)))))))"

definition enrich_data_with_avatars_json ::
  "json \<Rightarrow> avatars \<Rightarrow> json \<times> nat \<times> py_error option" where
  "enrich_data_with_avatars_json data avatar_urls =
     (case py_iter data of
        Inl e \<Rightarrow> (data, 0, Some e)
      | Inr items \<Rightarrow>
          (case enrich_items items avatar_urls 0 of
             (items', n, e) \<Rightarrow>
               ((case data of JArr xs \<Rightarrow> JArr items' | other \<Rightarrow> data), n, e)))"

subsection \<open>Files\<close>

text \<open>
  A file holds a JSON document, a generated page, or bytes that are not a JSON
  document. Serialisation itself is not modelled: a file written by \<open>json.dump\<close>
  holds the value that was dumped. A dataset is the document that is an array of
  objects.
\<close>

datatype content = Document json | Page string | Damaged

abbreviation Dataset :: "video list \<Rightarrow> content" where
  "Dataset data \<equiv> Document (JArr (map JObj data))"

type_synonym files = "string \<Rightarrow> content option"

text \<open>How writing a path ends: \<open>open\<close> may raise before the file is touched, and
  the dump may raise after \<open>open\<close> has truncated it.\<close>

datatype write_result = WriteOk | OpenFails | DumpFails

text \<open>
  \<open>load_json_data\<close> returns whatever document the file holds: there is no check of
  its shape. Inside the \<open>try\<close> it prints \<open>len(data)\<close>, so a document without a
  length (a number, a Boolean, \<open>null\<close>) ends in the handler like a file that cannot
  be read or parsed.
\<close>

definition load_json_data :: "files \<Rightarrow> string \<Rightarrow> json outcome" where
  "load_json_data fs file_path =
     (case fs file_path of
        None \<Rightarrow> SysExit 1
      | Some (Document data) \<Rightarrow>
          (case py_len data of
             Inl e \<Rightarrow> SysExit 1
           | Inr n \<Rightarrow> Return data)
      | Some (Page p) \<Rightarrow> SysExit 1
      | Some Damaged \<Rightarrow> SysExit 1)"

text \<open>\<open>save_json_data\<close> prints \<open>len(data)\<close> after the dump, inside the \<open>try\<close> as
  well.\<close>

definition save_json_data ::
  "(string \<Rightarrow> write_result) \<Rightarrow> files \<Rightarrow> json \<Rightarrow> string \<Rightarrow> unit outcome \<times> files" where
  "save_json_data disk fs data file_path =
     (case disk file_path of
        WriteOk \<Rightarrow>
          (case py_len data of
             Inl e \<Rightarrow> (SysExit 1, fs(file_path \<mapsto> Document data))
           | Inr n \<Rightarrow> (Return (), fs(file_path \<mapsto> Document data)))
      | OpenFails \<Rightarrow> (SysExit 1, fs)
      | DumpFails \<Rightarrow> (SysExit 1, fs(file_path \<mapsto> Damaged)))"

subsection \<open>main\<close>

text \<open>
  What the run depends on besides the files: the configured key, the network, the
  outcome of each write, and the order in which \<open>list(channel_ids)\<close> enumerates
  the set. \<open>main\<close> passes the document as loaded, whatever its shape, to the
  Deduplicator and to the Merger.
\<close>

record env =
  YOUTUBE_API_KEY :: string
  requests_get :: network
  disk :: "string \<Rightarrow> write_result"
  set_order :: "pykey set \<Rightarrow> pykey list"

fun key_str :: "pykey \<Rightarrow> string option" where
  "key_str (KStr s) = Some s"
| "key_str KNone = None"
| "key_str (KInt i) = None"

text \<open>
  The call \<open>fetch_channel_avatars_batch(list(channel_ids))\<close>. The fetcher is typed on
  strings; with an id that is not a string, \<open>",".join(batch)\<close> raises \<open>TypeError\<close>
  outside the \<open>try\<close>, after the key check.
\<close>

definition call_fetch :: "network \<Rightarrow> string \<Rightarrow> pykey list \<Rightarrow> (avatars \<times> issued) outcome" where
  "call_fetch nw api_key ids =
     (if list_all (\<lambda>k. key_str k \<noteq> None) ids
      then fetch_channel_avatars_batch nw api_key (map (\<lambda>k. the (key_str k)) ids)
      else if api_key = [] \<or> api_key = PLACEHOLDER_KEY then SysExit 1
      else Uncaught TypeError)"

definition main :: "env \<Rightarrow> files \<Rightarrow> unit outcome \<times> files" where
  "main ev fs =
     (case load_json_data fs DATA_JSON_PATH of
        SysExit n \<Rightarrow> (SysExit n, fs)
      | Uncaught e \<Rightarrow> (Uncaught e, fs)
      | Return data \<Rightarrow>
     (case save_json_data (disk ev) fs data BACKUP_PATH of
        (SysExit n, fs1) \<Rightarrow> (SysExit n, fs1)
      | (Uncaught e, fs1) \<Rightarrow> (Uncaught e, fs1)
      | (Return u, fs1) \<Rightarrow>
     (case extract_unique_channel_ids_json data of
        Inl e \<Rightarrow> (Uncaught e, fs1)
      | Inr channel_ids \<Rightarrow>
          if channel_ids = {} then (SysExit 1, fs1)
          else
     (case call_fetch (requests_get ev) (YOUTUBE_API_KEY ev) (set_order ev channel_ids) of
        SysExit n \<Rightarrow> (SysExit n, fs1)
      | Uncaught e \<Rightarrow> (Uncaught e, fs1)
      | Return (avatar_urls, reqs) \<Rightarrow>
          if avatar_urls = [] then (SysExit 1, fs1)
          else
     (case enrich_data_with_avatars_json data avatar_urls of
        (enriched_data, n, Some e) \<Rightarrow> (Uncaught e, fs1)
      | (enriched_data, n, None) \<Rightarrow>
          save_json_data (disk ev) fs1 enriched_data DATA_JSON_PATH)))))"

text \<open>The exit status of the process: 0 when \<open>main\<close> returns, the argument of
  \<open>sys.exit\<close>, and 1 when an exception escapes.\<close>

fun exit_status :: "'a outcome \<Rightarrow> int" where
  "exit_status (Return x) = 0"
| "exit_status (SysExit n) = n"
| "exit_status (Uncaught e) = 1"

section \<open>visualize\_youtube\_db.py\<close>

subsection \<open>The Grouper\<close>

type_synonym channel_key = "pykey \<times> pykey \<times> pykey"
type_synonym channel_group = "channel_key \<times> video list"

text \<open>The tuple \<open>(video['channelId'], video['channelTitle'],
  video.get('channelAvatarUrl', ''))\<close>, hashed as the key of \<open>channels\<close>.\<close>

definition channel_key_of :: "video \<Rightarrow> py_error + channel_key" where
  "channel_key_of video =
     (case map_of video ''channelId'' of
        None \<Rightarrow> Inl KeyError
      | Some cid \<Rightarrow>
     (case map_of video ''channelTitle'' of
        None \<Rightarrow> Inl KeyError
      | Some title \<Rightarrow>
     (let avatar = (case map_of video ''channelAvatarUrl'' of None \<Rightarrow> JStr [] | Some a \<Rightarrow> a)
      in case py_hash cid of
           Inl e \<Rightarrow> Inl e
         | Inr k1 \<Rightarrow>
        (case py_hash title of
           Inl e \<Rightarrow> Inl e
         | Inr k2 \<Rightarrow>
        (case py_hash avatar of
           Inl e \<Rightarrow> Inl e
         | Inr k3 \<Rightarrow> Inr (k1, k2, k3))))))"

text \<open>\<open>channels[channel_key].append(video)\<close> on a \<open>defaultdict(list)\<close>: a new key
  enters at the end with an empty list.\<close>

definition append_video :: "channel_key \<Rightarrow> video \<Rightarrow> channel_group list \<Rightarrow> channel_group list" where
  "append_video k video channels =
     (case map_of channels k of
        None \<Rightarrow> channels @ [(k, [video])]
      | Some vs \<Rightarrow> AList.update k (vs @ [video]) channels)"

fun group_loop :: "video list \<Rightarrow> channel_group list \<Rightarrow> py_error + channel_group list" where
  "group_loop [] channels = Inr channels"
| "group_loop (video # rest) channels =
     (case channel_key_of video of
        Inl e \<Rightarrow> Inl e
      | Inr k \<Rightarrow> group_loop rest (append_video k video channels))"

text \<open>\<open>sorted(xs, key=f, reverse=True)\<close>: the list is reversed, sorted stably in
  ascending order and reversed again, so equal keys keep their order.\<close>

definition py_sorted_reverse :: "('a \<Rightarrow> nat) \<Rightarrow> 'a list \<Rightarrow> 'a list" where
  "py_sorted_reverse f xs = rev (sort_key f (rev xs))"

definition group_videos_by_channel :: "video list \<Rightarrow> py_error + channel_group list" where
  "group_videos_by_channel videos =
     (case group_loop videos [] of
        Inl e \<Rightarrow> Inl e
      | Inr channels \<Rightarrow> Inr (py_sorted_reverse (\<lambda>x. length (snd x)) channels))"

text \<open>
  The same on whatever document the file holds: \<open>video['channelId']\<close> on an item
  that is not a dict raises \<open>TypeError\<close>.
\<close>

fun group_items :: "json list \<Rightarrow> channel_group list \<Rightarrow> py_error + channel_group list" where
  "group_items [] channels = Inr channels"
| "group_items (item # rest) channels =
     (case item of
        JObj video \<Rightarrow>
          (case channel_key_of video of
             Inl e \<Rightarrow> Inl e
           | Inr k \<Rightarrow> group_items rest (append_video k video channels))
      | other \<Rightarrow> Inl TypeError)"

definition group_videos_by_channel_json :: "json \<Rightarrow> py_error + channel_group list" where
  "group_videos_by_channel_json videos =
     (case py_iter videos of
        Inl e \<Rightarrow> Inl e
      | Inr items \<Rightarrow>
          (case group_items items [] of
             Inl e \<Rightarrow> Inl e
           | Inr channels \<Rightarrow> Inr (py_sorted_reverse (\<lambda>x. length (snd x)) channels)))"

subsection \<open>The Renderer\<close>

text \<open>
  The page is string templating. Its fixed texts are parameters: the head (with the
  two totals), the section of a channel (which may raise on a malformed record) and
  the foot (with the timestamp).
\<close>

record template =
  page_head :: "nat \<Rightarrow> nat \<Rightarrow> string"
  channel_section :: "channel_group \<Rightarrow> py_error + string"
  page_foot :: "string \<Rightarrow> string"

fun render_channels ::
  "(channel_group \<Rightarrow> py_error + string) \<Rightarrow> channel_group list \<Rightarrow> string \<Rightarrow> py_error + string" where
  "render_channels sec [] html = Inr html"
| "render_channels sec (c # cs) html =
     (case sec c of
        Inl e \<Rightarrow> Inl e
      | Inr part \<Rightarrow> render_channels sec cs (html @ part))"

definition generate_html :: "template \<Rightarrow> string \<Rightarrow> channel_group list \<Rightarrow> py_error + string" where
  "generate_html tpl timestamp channels_data =
     (let total_videos = sum_list (map (\<lambda>c. length (snd c)) channels_data);
          total_channels = length channels_data;
          html = page_head tpl total_channels total_videos
      in case render_channels (channel_section tpl) channels_data html of
           Inl e \<Rightarrow> Inl e
         | Inr html' \<Rightarrow> Inr (html' @ page_foot tpl timestamp))"

subsection \<open>main of the report\<close>

definition data_file :: string where
  "data_file = ''LaVideoLaPlusVue/Data/data.json''"

definition output_file :: string where
  "output_file = ''youtube_db_visualization.html''"

text \<open>\<open>a / b\<close> on two lengths.\<close>

definition py_truediv :: "nat \<Rightarrow> nat \<Rightarrow> py_error + real" where
  "py_truediv a b = (if b = 0 then Inl ZeroDivisionError else Inr (real a / real b))"

text \<open>\<open>load_youtube_data\<close> has no handler: a file that is not JSON raises. It
  returns the document as it is.\<close>

definition load_youtube_data :: "files \<Rightarrow> string \<Rightarrow> py_error + json" where
  "load_youtube_data fs file_path =
     (case fs file_path of
        None \<Rightarrow> Inl OSError
      | Some (Document data) \<Rightarrow> Inr data
      | Some (Page p) \<Rightarrow> Inl JSONDecodeError
      | Some Damaged \<Rightarrow> Inl JSONDecodeError)"

record report_env =
  tpl :: template
  clock :: string
  out_disk :: "string \<Rightarrow> write_result"

definition report_main :: "report_env \<Rightarrow> files \<Rightarrow> unit outcome \<times> files" where
  "report_main ev fs =
     (if fs data_file = None then (Return (), fs)
      else
     (case load_youtube_data fs data_file of
        Inl e \<Rightarrow> (Uncaught e, fs)
      | Inr videos \<Rightarrow>
     (case py_len videos of
        Inl e \<Rightarrow> (Uncaught e, fs)
      | Inr n \<Rightarrow>
     (case group_videos_by_channel_json videos of
        Inl e \<Rightarrow> (Uncaught e, fs)
      | Inr channels \<Rightarrow>
     (case generate_html (tpl ev) (clock ev) channels of
        Inl e \<Rightarrow> (Uncaught e, fs)
      | Inr html_content \<Rightarrow>
     (case out_disk ev output_file of
        OpenFails \<Rightarrow> (Uncaught OSError, fs)
      | DumpFails \<Rightarrow> (Uncaught OSError, fs(output_file \<mapsto> Damaged))
      | WriteOk \<Rightarrow>
          (let fs1 = fs(output_file \<mapsto> Page html_content)
           in case py_truediv n (length channels) of
                Inl e \<Rightarrow> (Uncaught e, fs1)
              | Inr average \<Rightarrow> (Return (), fs1))))))))"

section \<open>Predicates of the statements\<close>

text \<open>The data model of the dataset: a \<open>channelId\<close>, where present, is a string.\<close>

definition string_channel_ids :: "video list \<Rightarrow> bool" where
  "string_channel_ids data =
     list_all (\<lambda>item. case map_of item ''channelId'' of
                         None \<Rightarrow> True
                       | Some (JStr s) \<Rightarrow> True
                       | Some other \<Rightarrow> False) data"

text \<open>The invariant of the Grouper's loop after the records \<open>ps\<close>: the keys of
  \<open>channels\<close> are distinct, the group of a key holds the records of \<open>ps\<close> with that
  key, in order, and exists when there is one, and the sizes add up to the number of
  records.\<close>

definition grouped :: "video list \<Rightarrow> channel_group list \<Rightarrow> bool" where
  "grouped ps channels \<longleftrightarrow>
     distinct (map fst channels)
   \<and> (\<forall>k. map_of channels k =
          (if filter (\<lambda>v. channel_key_of v = Inr k) ps = [] then None
           else Some (filter (\<lambda>v. channel_key_of v = Inr k) ps)))
   \<and> sum_list (map (\<lambda>g. length (snd g)) channels) = length ps"

section \<open>Concrete inputs\<close>

text \<open>A network on which every request fails.\<close>

definition net_down :: network where
  "net_down n r = Inl RequestException"

text \<open>A channel item of a response with a \<open>medium\<close> and a \<open>default\<close> thumbnail
  and no \<open>high\<close> one, and an item with none of the three.\<close>

definition thumbs_medium :: "(string \<times> json) list" where
  "thumbs_medium = [(''default'', JObj [(''url'', JStr ''d.jpg'')]),
                    (''medium'', JObj [(''url'', JStr ''m.jpg'')])]"

definition item_medium :: "(string \<times> json) list" where
  "item_medium =
     [(''id'', JStr ''UC1''),
      (''snippet'', JObj [(''title'', JStr ''One''), (''thumbnails'', JObj thumbs_medium)])]"

definition item_bare :: "(string \<times> json) list" where
  "item_bare =
     [(''id'', JStr ''UC2''),
      (''snippet'', JObj [(''title'', JStr ''Two''),
                          (''thumbnails'', JObj [(''maxres'', JObj [(''url'', JStr ''x.jpg'')])])])]"

text \<open>Three records, two of channel \<open>A\<close> and one of channel \<open>B\<close>, a record with
  no \<open>channelId\<close>, and an avatar mapping that knows \<open>A\<close> only.\<close>

definition video_a1 :: video where
  "video_a1 = [(''id'', JStr ''v1''), (''channelId'', JStr ''A''), (''channelTitle'', JStr ''Alpha'')]"

definition video_a2 :: video where
  "video_a2 = [(''id'', JStr ''v2''), (''channelId'', JStr ''A''), (''channelTitle'', JStr ''Alpha''),
               (''viewCount'', JInt 7)]"

definition video_b :: video where
  "video_b = [(''id'', JStr ''v3''), (''channelId'', JStr ''B''), (''channelTitle'', JStr ''Beta'')]"

definition video_anon :: video where
  "video_anon = [(''id'', JStr ''v4''), (''title'', JStr ''untitled'')]"

definition avatars_a :: avatars where
  "avatars_a = [(KStr ''A'', JStr ''a.jpg'')]"



text \<open>A run on the three records: every write succeeds, the key is configured, and
  the network is down (\<open>env_down\<close>) or answers with the avatar of channel \<open>A\<close>
  (\<open>env_up\<close>).\<close>

definition dataset_abb :: "video list" where
  "dataset_abb = [video_a1, video_a2, video_b]"

definition fs_start :: files where
  "fs_start = Map.empty(DATA_JSON_PATH \<mapsto> Dataset dataset_abb)"

definition item_a :: "(string \<times> json) list" where
  "item_a =
     [(''id'', JStr ''A''),
      (''snippet'', JObj [(''title'', JStr ''Alpha''),
                          (''thumbnails'', JObj [(''high'', JObj [(''url'', JStr ''a.jpg'')])])])]"

definition net_a :: network where
  "net_a n r = Inr (JObj [(''items'', JArr [JObj item_a])])"

definition env_down :: env where
  "env_down = \<lparr> YOUTUBE_API_KEY = ''k'', requests_get = net_down,
                 disk = (\<lambda>p. WriteOk), set_order = (\<lambda>S. [KStr ''A'', KStr ''B'']) \<rparr>"

definition env_up :: env where
  "env_up = \<lparr> YOUTUBE_API_KEY = ''k'', requests_get = net_a,
               disk = (\<lambda>p. WriteOk), set_order = (\<lambda>S. [KStr ''A'', KStr ''B'']) \<rparr>"

text \<open>A run of the report on an empty dataset, with a plain template.\<close>

definition tpl_plain :: template where
  "tpl_plain = \<lparr> page_head = (\<lambda>c v. ''<html>''),
                  channel_section = (\<lambda>g. Inr ''<section>''),
                  page_foot = (\<lambda>t. ''</html>'') \<rparr>"

definition report_env_ok :: report_env where
  "report_env_ok = \<lparr> tpl = tpl_plain, clock = ''now'', out_disk = (\<lambda>p. WriteOk) \<rparr>"

definition fs_empty :: files where
  "fs_empty = Map.empty(data_file \<mapsto> Dataset [])"

text \<open>A network that answers the first request with the avatar of channel \<open>A\<close> when
  the request is the one expected for the ids \<open>A\<close>, \<open>B\<close>, \<open>C\<close> and the key \<open>k\<close>, and
  fails otherwise.\<close>

definition net_abc :: network where
  "net_abc n r =
     (if n = 0
         \<and> req_url r = ''https://www.googleapis.com/youtube/v3/channels''
         \<and> req_params r = [(''part'', ''snippet''), (''id'', ''A,B,C''), (''key'', ''k''),
                            (''fields'', ''items(id,snippet(title,thumbnails))'')]
      then Inr (JObj [(''items'', JArr [JObj item_a])])
      else Inl RequestException)"

text \<open>Three records of one channel that differ in the avatar: present, absent, and
  present but empty.\<close>

definition video_c1 :: video where
  "video_c1 = [(''id'', JStr ''v5''), (''channelId'', JStr ''C''), (''channelTitle'', JStr ''Gamma''),
               (''channelAvatarUrl'', JStr ''c.jpg'')]"

definition video_c2 :: video where
  "video_c2 = [(''id'', JStr ''v6''), (''channelId'', JStr ''C''), (''channelTitle'', JStr ''Gamma'')]"

definition video_c3 :: video where
  "video_c3 = [(''id'', JStr ''v7''), (''channelId'', JStr ''C''), (''channelTitle'', JStr ''Gamma''),
               (''channelAvatarUrl'', JStr [])]"

section \<open>Properties of the Batch Fetcher\<close>

lemma py_range_length:
  "0 < step \<Longrightarrow> length (py_range i stop step) = (stop - i + step - 1) div step"
proof (induction i stop step rule: py_range.induct)
  case (1 i stop step)
  show ?case
  proof (cases "stop \<le> i")
    case True
    with "1.prems" show ?thesis by (simp add: py_range.simps [of i])
  next
    case False
    then have lt: "i < stop" by simp
    define X where "X = stop - (i + step) + step - 1"
    have "(stop - i + step - 1) div step = Suc (X div step)"
    proof (cases "i + step \<le> stop")
      case True
      then have "stop - i + step - 1 = X + step" using "1.prems" by (simp add: X_def)
      moreover have "(X + step) div step = Suc (X div step)" using "1.prems" by simp
      ultimately show ?thesis by simp
    next
      case False
      with lt "1.prems" have a: "stop - i + step - 1 < 2 * step" and b: "step \<le> stop - i + step - 1"
        and c: "X < step" by (simp_all add: X_def)
      from c have "X div step = 0" by simp
      moreover from a b have "(stop - i + step - 1) div step = 1"
        by (metis (no_types, lifting) "1.prems" div_nat_eqI mult.commute mult_1 mult_2 plus_1_eq_Suc mult_Suc)
      ultimately show ?thesis by simp
    qed
    with 1 False show ?thesis by (simp add: X_def py_range.simps [of i])
  qed
qed

lemma batches_concat:
  "0 < step \<Longrightarrow>
   concat (map (\<lambda>i. py_slice xs i (i + step)) (py_range i (length xs) step)) = drop i xs"
proof (induction i "length xs" step rule: py_range.induct)
  case (1 i step)
  show ?case
  proof (cases "length xs \<le> i")
    case True
    then show ?thesis by (simp add: py_range.simps [of i])
  next
    case False
    with 1 have "concat (map (\<lambda>i. py_slice xs i (i + step)) (py_range (i + step) (length xs) step)) = drop (i + step) xs"
      by simp
    with False "1.prems" show ?thesis
      by (simp add: py_range.simps [of i] py_slice_def add.commute[of i step] flip: drop_drop)
  qed
qed

lemma ceil50: "int ((n + 49) div 50) = \<lceil>real n / 50\<rceil>"
  by linarith

lemma fetch_loop_issued:
  "snd (fetch_loop net api_key channel_ids bs is st) =
     snd st @ map (\<lambda>i. (py_slice channel_ids i (i + bs),
                          channels_request api_key (py_slice channel_ids i (i + bs)))) is"
  by (induction "is" arbitrary: st) (auto simp: Let_def split: sum.splits)

lemma py_range_in: "j \<in> set (py_range i stop step) \<Longrightarrow> j < stop"
proof (induction i stop step rule: py_range.induct)
  case (1 i stop step)
  from "1.prems" have c: "\<not> (step = 0 \<or> stop \<le> i)"
    by (auto simp: py_range.simps [of i stop step] split: if_splits)
  with "1.prems" have "j = i \<or> j \<in> set (py_range (i + step) stop step)"
    by (simp add: py_range.simps [of i stop step])
  with c "1.IH" show ?case by auto
qed

lemma fetch_loop_fold:
  "fst (fetch_loop nw api_key ids bs is st) =
     foldl (\<lambda>av (n, batch, req). case nw n req of
                                   Inl e \<Rightarrow> av
                                 | Inr data \<Rightarrow> fst (process_response data av))
       (fst st)
       (zip [length (snd st)..<length (snd st) + length is]
            (map (\<lambda>i. (py_slice ids i (i + bs), channels_request api_key (py_slice ids i (i + bs)))) is))"
proof (induction "is" arbitrary: st)
  case Nil
  show ?case by simp
next
  case (Cons i "is")
  let ?b = "py_slice ids i (i + bs)"
  let ?req = "channels_request api_key ?b"
  have u: "[length (snd st)..<length (snd st) + length (i # is)] =
           length (snd st) # [Suc (length (snd st))..<Suc (length (snd st)) + length is]"
    using upt_conv_Cons [of "length (snd st)" "length (snd st) + Suc (length is)"] by simp
  show ?case
  proof (cases "nw (length (snd st)) ?req")
    case (Inl e)
    with Cons [of "(fst st, snd st @ [(?b, ?req)])"] show ?thesis
      by (simp only: u) (simp add: Let_def)
  next
    case (Inr data)
    with Cons [of "(fst (process_response data (fst st)), snd st @ [(?b, ?req)])"] show ?thesis
      by (simp only: u) (simp add: Let_def)
  qed
qed

lemma channels_request_params:
  "req_url (channels_request api_key batch) = YOUTUBE_API_BASE @ ''/channels''
   \<and> req_params (channels_request api_key batch) =
       [(''part'', ''snippet''), (''id'', py_join '','' batch), (''key'', api_key),
        (''fields'', ''items(id,snippet(title,thumbnails))'')]"
  by (simp add: channels_request_def)


text \<open>
  C1. With a configured key, the Batch Fetcher returns after issuing exactly
  \<open>\<lceil>N/50\<rceil>\<close> requests for \<open>N\<close> ids, whatever the network answers. Every
  batch has between 1 and 50 ids, and the batches in order make up the input list: no
  id is omitted, and an input without duplicates is requested without duplicates.
  Every request goes to the channels endpoint and carries the comma-joined ids of its
  batch, the key and the field selection. The requests are the calls of the network:
  the result is what the answers to exactly these requests, taken in order, put into
  the avatar mapping.
\<close>

theorem fetch_batches:
  assumes "api_key \<noteq> []" and "api_key \<noteq> PLACEHOLDER_KEY"
  shows "\<exists>avatar_urls issued.
           fetch_channel_avatars_batch nw api_key channel_ids = Return (avatar_urls, issued)
         \<and> int (length issued) = \<lceil>real (length channel_ids) / 50\<rceil>
         \<and> map snd issued = map (channels_request api_key) (map fst issued)
         \<and> (\<forall>batch \<in> set (map fst issued). batch \<noteq> [] \<and> length batch \<le> 50)
         \<and> concat (map fst issued) = channel_ids
         \<and> set (concat (map fst issued)) = set channel_ids
         \<and> (distinct channel_ids \<longrightarrow> distinct (concat (map fst issued)))
         \<and> (\<forall>p \<in> set issued.
               req_url (snd p) = YOUTUBE_API_BASE @ ''/channels''
             \<and> req_params (snd p) =
                 [(''part'', ''snippet''), (''id'', py_join '','' (fst p)), (''key'', api_key),
                  (''fields'', ''items(id,snippet(title,thumbnails))'')])
         \<and> avatar_urls =
             foldl (\<lambda>av (n, batch, req). case nw n req of
                                           Inl e \<Rightarrow> av
                                         | Inr data \<Rightarrow> fst (process_response data av))
               [] (zip [0..<length issued] issued)"
proof -
  let ?is = "py_range 0 (length channel_ids) 50"
  let ?mk = "\<lambda>i. (py_slice channel_ids i (i + 50),
                  channels_request api_key (py_slice channel_ids i (i + 50)))"
  let ?r = "fetch_loop nw api_key channel_ids 50 ?is ([], [])"
  have ret: "fetch_channel_avatars_batch nw api_key channel_ids = Return (fst ?r, snd ?r)"
    using assms by (simp add: fetch_channel_avatars_batch_def)
  have iss: "snd ?r = map ?mk ?is"
    by (simp add: fetch_loop_issued)
  have "length (snd ?r) = (length channel_ids + 49) div 50"
    by (simp add: iss py_range_length)
  then have len: "int (length (snd ?r)) = \<lceil>real (length channel_ids) / 50\<rceil>"
    by (simp only: ceil50)
  have fsts: "map fst (snd ?r) = map (\<lambda>i. py_slice channel_ids i (i + 50)) ?is"
    by (simp only: iss map_map) (simp add: comp_def)
  have reqs: "map snd (snd ?r) = map (channels_request api_key) (map fst (snd ?r))"
    by (simp only: iss map_map) (simp add: comp_def)
  have cat: "concat (map fst (snd ?r)) = channel_ids"
    unfolding fsts using batches_concat [of 50 channel_ids 0] by simp
  have bound: "\<forall>batch \<in> set (map fst (snd ?r)). batch \<noteq> [] \<and> length batch \<le> 50"
  proof
    fix batch assume "batch \<in> set (map fst (snd ?r))"
    then obtain i where i: "i \<in> set ?is" and b: "batch = py_slice channel_ids i (i + 50)"
      unfolding fsts by auto
    from i have "i < length channel_ids" using py_range_in [of i 0 "length channel_ids" 50] by simp
    with b show "batch \<noteq> [] \<and> length batch \<le> 50" by (simp add: py_slice_def)
  qed
  have params: "\<forall>p \<in> set (snd ?r).
               req_url (snd p) = YOUTUBE_API_BASE @ ''/channels''
             \<and> req_params (snd p) =
                 [(''part'', ''snippet''), (''id'', py_join '','' (fst p)), (''key'', api_key),
                  (''fields'', ''items(id,snippet(title,thumbnails))'')]"
  proof
    fix p assume "p \<in> set (snd ?r)"
    then obtain i where "p = ?mk i" unfolding iss by auto
    then show "req_url (snd p) = YOUTUBE_API_BASE @ ''/channels''
             \<and> req_params (snd p) =
                 [(''part'', ''snippet''), (''id'', py_join '','' (fst p)), (''key'', api_key),
                  (''fields'', ''items(id,snippet(title,thumbnails))'')]"
      by (simp add: channels_request_def)
  qed
  have "fst ?r = foldl (\<lambda>av (n, batch, req). case nw n req of
                                           Inl e \<Rightarrow> av
                                         | Inr data \<Rightarrow> fst (process_response data av))
               [] (zip [0..<length ?is] (map ?mk ?is))"
    using fetch_loop_fold [of nw api_key channel_ids 50 ?is "([], [])"] by simp
  then have fold: "fst ?r = foldl (\<lambda>av (n, batch, req). case nw n req of
                                           Inl e \<Rightarrow> av
                                         | Inr data \<Rightarrow> fst (process_response data av))
               [] (zip [0..<length (snd ?r)] (snd ?r))"
    by (simp only: iss length_map)
  show ?thesis
    apply (rule exI [of _ "fst ?r"], rule exI [of _ "snd ?r"])
    apply (intro conjI)
    subgoal by (rule ret)
    subgoal by (rule len)
    subgoal by (rule reqs)
    subgoal by (rule bound)
    subgoal by (rule cat)
    subgoal by (simp only: cat)
    subgoal by (simp only: cat) simp
    subgoal by (rule params)
    subgoal by (rule fold)
    done
qed

theorem fetch_batches_witness:
  "''k'' \<noteq> [] \<and> ''k'' \<noteq> PLACEHOLDER_KEY \<and>
   fetch_channel_avatars_batch net_abc ''k'' [''A'', ''B'', ''C''] =
     Return ([(KStr ''A'', JStr ''a.jpg'')],
             [([''A'', ''B'', ''C''],
               \<lparr> req_url = ''https://www.googleapis.com/youtube/v3/channels'',
                 req_params = [(''part'', ''snippet''), (''id'', ''A,B,C''), (''key'', ''k''),
                               (''fields'', ''items(id,snippet(title,thumbnails))'')] \<rparr>)]) \<and>
   fetch_channel_avatars_batch net_down ''k'' [''A'', ''B'', ''C''] =
     Return ([], [([''A'', ''B'', ''C''], channels_request ''k'' [''A'', ''B'', ''C''])]) \<and>
   \<lceil>real (length [''A'', ''B'', ''C'']) / 50\<rceil> = 1"
proof -
  have k: "''k'' \<noteq> []" "''k'' \<noteq> PLACEHOLDER_KEY"
    by (simp_all add: PLACEHOLDER_KEY_def)
  have ev: "fetch_channel_avatars_batch net_abc ''k'' [''A'', ''B'', ''C''] =
     Return ([(KStr ''A'', JStr ''a.jpg'')],
             [([''A'', ''B'', ''C''],
               \<lparr> req_url = ''https://www.googleapis.com/youtube/v3/channels'',
                 req_params = [(''part'', ''snippet''), (''id'', ''A,B,C''), (''key'', ''k''),
                               (''fields'', ''items(id,snippet(title,thumbnails))'')] \<rparr>)])"
    by code_simp
  have dn: "fetch_channel_avatars_batch net_down ''k'' [''A'', ''B'', ''C''] =
     Return ([], [([''A'', ''B'', ''C''], channels_request ''k'' [''A'', ''B'', ''C''])])"
    by code_simp
  from fetch_batches [OF k, of net_abc "[''A'', ''B'', ''C'']"] ev dn k show ?thesis
    by simp
qed

section \<open>Properties of the avatar selection\<close>

lemma contains_obj: "(k \<in> fst ` set d) = (map_of d k \<noteq> None)"
  by (simp add: map_of_eq_None_iff)

text \<open>
  C2. For a returned channel item whose thumbnails are a mapping, the selection takes
  the first key present among \<open>high\<close>, \<open>medium\<close>, \<open>default\<close>, in this order, and
  returns the URL stored under it; a truthy URL is stored under the channel id. In
  particular a mapping with \<open>medium\<close> and without \<open>high\<close> yields the \<open>medium\<close> URL. When
  none of the three keys is present the selection yields \<open>None\<close>, no exception is
  raised, and the avatar mapping is left as it was.
\<close>

theorem avatar_selection:
  assumes "map_of item ''id'' = Some channel_id"
      and "map_of item ''snippet'' = Some (JObj snippet)"
      and "map_of snippet ''title'' = Some title"
      and "map_of snippet ''thumbnails'' = Some (JObj thumbnails)"
  shows "(\<forall>q t url k.
            find (\<lambda>q. q \<in> fst ` set thumbnails) [''high'', ''medium'', ''default''] = Some q
            \<and> map_of thumbnails q = Some (JObj t) \<and> map_of t ''url'' = Some url
          \<longrightarrow> select_avatar QUALITIES (JObj thumbnails) = Inr (Some url)
              \<and> (py_truthy url \<and> py_hash channel_id = Inr k
                   \<longrightarrow> process_item (JObj item) avatar_urls = Inr (AList.update k url avatar_urls)))
       \<and> (find (\<lambda>q. q \<in> fst ` set thumbnails) [''high'', ''medium'', ''default''] = None
          \<longrightarrow> select_avatar QUALITIES (JObj thumbnails) = Inr None
              \<and> process_item (JObj item) avatar_urls = Inr avatar_urls)
       \<and> (\<forall>t url. ''high'' \<notin> fst ` set thumbnails
            \<and> map_of thumbnails ''medium'' = Some (JObj t) \<and> map_of t ''url'' = Some url
          \<longrightarrow> select_avatar QUALITIES (JObj thumbnails) = Inr (Some url))"
proof (intro conjI allI impI)
  fix q t url k
  assume a: "find (\<lambda>q. q \<in> fst ` set thumbnails) [''high'', ''medium'', ''default''] = Some q
            \<and> map_of thumbnails q = Some (JObj t) \<and> map_of t ''url'' = Some url"
  then show sel: "select_avatar QUALITIES (JObj thumbnails) = Inr (Some url)"
    by (auto simp: QUALITIES_def contains_obj split: if_splits)
  assume "py_truthy url \<and> py_hash channel_id = Inr k"
  with sel assms show "process_item (JObj item) avatar_urls = Inr (AList.update k url avatar_urls)"
    by (simp add: process_item_def)
next
  assume "find (\<lambda>q. q \<in> fst ` set thumbnails) [''high'', ''medium'', ''default''] = None"
  then show sel: "select_avatar QUALITIES (JObj thumbnails) = Inr None"
    by (auto simp: QUALITIES_def split: if_splits)
  with assms show "process_item (JObj item) avatar_urls = Inr avatar_urls"
    by (simp add: process_item_def)
next
  fix t url
  assume "''high'' \<notin> fst ` set thumbnails
            \<and> map_of thumbnails ''medium'' = Some (JObj t) \<and> map_of t ''url'' = Some url"
  then show "select_avatar QUALITIES (JObj thumbnails) = Inr (Some url)"
    by (auto simp: QUALITIES_def contains_obj)
qed


theorem avatar_selection_witness:
  "select_avatar QUALITIES (JObj thumbs_medium) = Inr (Some (JStr ''m.jpg''))
   \<and> process_item (JObj item_medium) [] = Inr [(KStr ''UC1'', JStr ''m.jpg'')]
   \<and> process_item (JObj item_bare) [(KStr ''UC0'', JStr ''z.jpg'')] = Inr [(KStr ''UC0'', JStr ''z.jpg'')]"
proof -
  have m: "map_of item_medium ''id'' = Some (JStr ''UC1'')"
      "map_of item_medium ''snippet'' =
         Some (JObj [(''title'', JStr ''One''), (''thumbnails'', JObj thumbs_medium)])"
      "map_of [(''title'', JStr ''One''), (''thumbnails'', JObj thumbs_medium)] ''title'' =
         Some (JStr ''One'')"
      "map_of [(''title'', JStr ''One''), (''thumbnails'', JObj thumbs_medium)] ''thumbnails'' =
         Some (JObj thumbs_medium)"
    by (simp_all add: item_medium_def)
  have f: "find (\<lambda>q. q \<in> fst ` set thumbs_medium) [''high'', ''medium'', ''default''] = Some ''medium''"
      "map_of thumbs_medium ''medium'' = Some (JObj [(''url'', JStr ''m.jpg'')])"
    by (simp_all add: thumbs_medium_def)
  have b: "process_item (JObj item_bare) [(KStr ''UC0'', JStr ''z.jpg'')] =
             Inr [(KStr ''UC0'', JStr ''z.jpg'')]"
    by (simp add: process_item_def item_bare_def QUALITIES_def)
  from avatar_selection [OF m, of "[]"] f b show ?thesis
    by simp
qed

section \<open>Properties of the Merger and the Deduplicator\<close>

lemma enrich_loop_length: "length (fst (enrich_loop data av n)) = length data"
  by (induction data arbitrary: n) (auto split: option.splits sum.splits)

lemma filter_update_other:
  "filter (\<lambda>p. fst p \<noteq> k) (AList.update k v al) = filter (\<lambda>p. fst p \<noteq> k) al"
  by (induction al) auto

lemma map_of_update_other: "f \<noteq> k \<Longrightarrow> map_of (AList.update k v al) f = map_of al f"
  by (simp add: update_conv')

lemma enrich_loop_nth:
  "i < length data \<Longrightarrow>
   fst (enrich_loop data av n) ! i = data ! i \<or>
   (\<exists>cid k url. map_of (data ! i) ''channelId'' = Some cid \<and> py_hash cid = Inr k \<and>
        map_of av k = Some url \<and>
        fst (enrich_loop data av n) ! i = AList.update ''channelAvatarUrl'' url (data ! i))"
proof (induction data arbitrary: n i)
  case Nil
  then show ?case by simp
next
  case (Cons item rest)
  show ?case
  proof (cases i)
    case 0
    then show ?thesis
      by (auto split: option.splits sum.splits)
  next
    case (Suc j)
    with Cons.prems have j: "j < length rest" by simp
    show ?thesis
    proof (cases "map_of item ''channelId''")
      case None
      with Suc Cons.IH [OF j, of n] show ?thesis
        by auto
    next
      case (Some cid)
      show ?thesis
      proof (cases "py_hash cid")
        case (Inl e)
        with Some Suc show ?thesis by simp
      next
        case (Inr k)
        show ?thesis
        proof (cases "map_of av k")
          case None
          with Some Inr Suc Cons.IH [OF j, of n] show ?thesis
            by auto
        next
          case (Some url)
          with \<open>map_of item ''channelId'' = Some cid\<close> Inr Suc Cons.IH [OF j, of "n + 1"] show ?thesis
            by auto
        qed
      qed
    qed
  qed
qed

text \<open>
  C4. For every record collection and every avatar mapping, the Merger keeps the number
  and the order of the records. A record whose \<open>channelId\<close> is not a key of the mapping
  (it has none, or its id is not in the mapping) is left exactly as it was. In every
  record the \<open>channelId\<close> is as before, every field other than \<open>channelAvatarUrl\<close> has
  its former value, and the fields other than \<open>channelAvatarUrl\<close> stand as before, in
  the same order.
\<close>

theorem merge_frame:
  assumes "i < length data"
  shows "length (fst (enrich_data_with_avatars data avatar_urls)) = length data
     \<and> ((\<forall>cid k. map_of (data ! i) ''channelId'' = Some cid \<and> py_hash cid = Inr k
                  \<longrightarrow> map_of avatar_urls k = None)
          \<longrightarrow> fst (enrich_data_with_avatars data avatar_urls) ! i = data ! i)
     \<and> map_of (fst (enrich_data_with_avatars data avatar_urls) ! i) ''channelId'' =
          map_of (data ! i) ''channelId''
     \<and> (\<forall>f. f \<noteq> ''channelAvatarUrl''
            \<longrightarrow> map_of (fst (enrich_data_with_avatars data avatar_urls) ! i) f = map_of (data ! i) f)
     \<and> filter (\<lambda>p. fst p \<noteq> ''channelAvatarUrl'') (fst (enrich_data_with_avatars data avatar_urls) ! i)
          = filter (\<lambda>p. fst p \<noteq> ''channelAvatarUrl'') (data ! i)"
proof -
  let ?d = "fst (enrich_data_with_avatars data avatar_urls)"
  from enrich_loop_nth [OF assms, of avatar_urls 0]
  consider (same) "?d ! i = data ! i"
    | (upd) cid k url where "map_of (data ! i) ''channelId'' = Some cid" "py_hash cid = Inr k"
        "map_of avatar_urls k = Some url"
        "?d ! i = AList.update ''channelAvatarUrl'' url (data ! i)"
    unfolding enrich_data_with_avatars_def by blast
  then show ?thesis
  proof cases
    case same
    then show ?thesis by (simp add: enrich_data_with_avatars_def enrich_loop_length)
  next
    case upd
    then show ?thesis
      by (auto simp: enrich_data_with_avatars_def enrich_loop_length filter_update_other
            map_of_update_other)
  qed
qed

theorem merge_frame_witness:
  "(2::nat) < length [video_a1, video_a2, video_b]
   \<and> enrich_data_with_avatars [video_a1, video_a2, video_b] avatars_a =
       ([video_a1 @ [(''channelAvatarUrl'', JStr ''a.jpg'')],
         video_a2 @ [(''channelAvatarUrl'', JStr ''a.jpg'')],
         video_b], 2, None)
   \<and> fst (enrich_data_with_avatars [video_a1, video_a2, video_b] avatars_a) ! 2 = video_b"
proof -
  have i: "(2::nat) < length [video_a1, video_a2, video_b]" by simp
  have ev: "enrich_data_with_avatars [video_a1, video_a2, video_b] avatars_a =
       ([video_a1 @ [(''channelAvatarUrl'', JStr ''a.jpg'')],
         video_a2 @ [(''channelAvatarUrl'', JStr ''a.jpg'')],
         video_b], 2, None)"
    by (simp add: enrich_data_with_avatars_def video_a1_def video_a2_def video_b_def avatars_a_def)
  from merge_frame [OF i, of avatars_a] ev show ?thesis
    by simp
qed

lemma enrich_loop_again:
  "fst (enrich_loop (fst (enrich_loop data av n)) av m) = fst (enrich_loop data av n) \<and>
   snd (snd (enrich_loop (fst (enrich_loop data av n)) av m)) = snd (snd (enrich_loop data av n))"
proof (induction data arbitrary: n m)
  case Nil
  show ?case by simp
next
  case (Cons item rest)
  show ?case
  proof (cases "map_of item ''channelId''")
    case None
    with Cons [of n m] show ?thesis by simp
  next
    case (Some cid)
    note cid = Some
    show ?thesis
    proof (cases "py_hash cid")
      case (Inl e)
      with cid show ?thesis by simp
    next
      case (Inr k)
      show ?thesis
      proof (cases "map_of av k")
        case None
        with cid Inr Cons [of n m] show ?thesis by simp
      next
        case (Some url)
        have "map_of (AList.update ''channelAvatarUrl'' url item) ''channelId'' = Some cid"
          using cid by (simp add: map_of_update_other)
        with cid Inr Some Cons [of "n + 1" "m + 1"] show ?thesis by simp
      qed
    qed
  qed
qed

text \<open>
  C5. For every record collection and every avatar mapping, merging a second time with
  the same mapping gives the same records as merging once (and ends the same way).
\<close>

theorem merge_idempotent:
  "fst (enrich_data_with_avatars (fst (enrich_data_with_avatars data avatar_urls)) avatar_urls)
     = fst (enrich_data_with_avatars data avatar_urls)
   \<and> snd (snd (enrich_data_with_avatars (fst (enrich_data_with_avatars data avatar_urls)) avatar_urls))
     = snd (snd (enrich_data_with_avatars data avatar_urls))"
  unfolding enrich_data_with_avatars_def by (rule enrich_loop_again)

lemma enrich_loop_skip:
  "map_of r ''channelId'' = None \<Longrightarrow>
   enrich_loop (xs @ r # ys) av n =
     (case enrich_loop (xs @ ys) av n of
        (d, m, e) \<Rightarrow> (take (length xs) d @ r # drop (length xs) d, m, e))"
proof (induction xs arbitrary: n)
  case Nil
  then show ?case by (simp split: prod.splits)
next
  case (Cons x xs)
  from Cons.IH [OF Cons.prems, of n] Cons.IH [OF Cons.prems, of "n + 1"] show ?case
    by (auto simp: apfst_def map_prod_def split: option.splits sum.splits prod.splits)
qed

lemma extract_loop_skip:
  "map_of r ''channelId'' = None \<Longrightarrow>
   extract_loop (xs @ r # ys) S = extract_loop (xs @ ys) S"
  by (induction xs arbitrary: S) (auto split: option.splits sum.splits)



text \<open>
  C9. A record without the key \<open>channelId\<close>, anywhere in the collection, is skipped by
  the Deduplicator: the ids collected are those of the collection without it. The
  Merger does to the other records what it does without it, counts the same number of
  enriched records, and leaves the record itself unchanged at its place.
\<close>

theorem missing_channel_id_tolerated:
  assumes "map_of r ''channelId'' = None"
  shows "extract_unique_channel_ids (xs @ r # ys) = extract_unique_channel_ids (xs @ ys)
     \<and> enrich_data_with_avatars (xs @ r # ys) avatar_urls =
         (case enrich_data_with_avatars (xs @ ys) avatar_urls of
            (d, m, e) \<Rightarrow> (take (length xs) d @ r # drop (length xs) d, m, e))
     \<and> fst (enrich_data_with_avatars (xs @ r # ys) avatar_urls) ! length xs = r"
proof -
  have a: "extract_unique_channel_ids (xs @ r # ys) = extract_unique_channel_ids (xs @ ys)"
    using assms by (simp add: extract_unique_channel_ids_def extract_loop_skip)
  have b: "enrich_data_with_avatars (xs @ r # ys) avatar_urls =
         (case enrich_data_with_avatars (xs @ ys) avatar_urls of
            (d, m, e) \<Rightarrow> (take (length xs) d @ r # drop (length xs) d, m, e))"
    using assms by (simp add: enrich_data_with_avatars_def enrich_loop_skip)
  obtain d m e where r: "enrich_data_with_avatars (xs @ ys) avatar_urls = (d, m, e)"
    by (cases "enrich_data_with_avatars (xs @ ys) avatar_urls") auto
  have "length (fst (enrich_data_with_avatars (xs @ ys) avatar_urls)) = length (xs @ ys)"
    by (simp add: enrich_data_with_avatars_def enrich_loop_length)
  with r have "length (take (length xs) d) = length xs"
    by simp
  then have "(take (length xs) d @ r # drop (length xs) d) ! length xs = r"
    by (metis nth_append_length)
  with b r have c: "fst (enrich_data_with_avatars (xs @ r # ys) avatar_urls) ! length xs = r"
    by simp
  from a b c show ?thesis by blast
qed

theorem missing_channel_id_tolerated_witness:
  "map_of video_anon ''channelId'' = None
   \<and> extract_unique_channel_ids ([video_a1] @ video_anon # [video_b]) = Inr {KStr ''A'', KStr ''B''}
   \<and> enrich_data_with_avatars ([video_a1] @ video_anon # [video_b]) avatars_a =
       ([video_a1 @ [(''channelAvatarUrl'', JStr ''a.jpg'')], video_anon, video_b], 1, None)"
proof -
  have h: "map_of video_anon ''channelId'' = None"
    by (simp add: video_anon_def)
  have e: "extract_unique_channel_ids ([video_a1] @ [video_b]) = Inr {KStr ''A'', KStr ''B''}"
    by (auto simp: extract_unique_channel_ids_def video_a1_def video_b_def)
  have m: "enrich_data_with_avatars ([video_a1] @ [video_b]) avatars_a =
       ([video_a1 @ [(''channelAvatarUrl'', JStr ''a.jpg'')], video_b], 1, None)"
    by (simp add: enrich_data_with_avatars_def video_a1_def video_b_def avatars_a_def)
  from missing_channel_id_tolerated [OF h, of "[video_a1]" "[video_b]" avatars_a] e m
  show ?thesis using h by simp
qed

section \<open>Failure of one batch\<close>










section \<open>Documents and datasets\<close>

text \<open>On a dataset, an array of objects, each loop on arbitrary items is the typed
  loop.\<close>

lemma extract_items_records: "extract_items (map JObj data) S = extract_loop data S"
proof (induction data arbitrary: S)
  case Nil
  show ?case by simp
next
  case (Cons item rest)
  show ?case
  proof (cases "map_of item ''channelId''")
    case None
    then have "''channelId'' \<notin> fst ` set item" by (simp add: map_of_eq_None_iff)
    with None Cons show ?thesis by simp
  next
    case (Some cid)
    then have "''channelId'' \<in> fst ` set item" by (simp add: contains_obj)
    with Some Cons show ?thesis by (simp split: sum.splits)
  qed
qed

lemma enrich_items_records:
  "enrich_items (map JObj data) av n = apfst (map JObj) (enrich_loop data av n)"
proof (induction data arbitrary: n)
  case Nil
  show ?case by simp
next
  case (Cons item rest)
  show ?case
  proof (cases "map_of item ''channelId''")
    case None
    then have "''channelId'' \<notin> fst ` set item" by (simp add: map_of_eq_None_iff)
    with None Cons [of n] show ?thesis by (simp add: apfst_def map_prod_def split: prod.splits)
  next
    case (Some cid)
    then have "''channelId'' \<in> fst ` set item" by (simp add: contains_obj)
    with Some Cons [of n] Cons [of "n + 1"] show ?thesis
      by (simp add: apfst_def map_prod_def split: sum.splits option.splits prod.splits)
  qed
qed

lemma extract_json_dataset:
  "extract_unique_channel_ids_json (JArr (map JObj data)) = extract_unique_channel_ids data"
  by (simp add: extract_unique_channel_ids_json_def extract_unique_channel_ids_def
        extract_items_records)

lemma enrich_json_dataset:
  "enrich_data_with_avatars_json (JArr (map JObj data)) av =
     (case enrich_data_with_avatars data av of (d, n, e) \<Rightarrow> (JArr (map JObj d), n, e))"
  by (simp add: enrich_data_with_avatars_json_def enrich_data_with_avatars_def
        enrich_items_records apfst_def map_prod_def split: prod.splits)

lemma group_items_records: "group_items (map JObj videos) channels = group_loop videos channels"
  by (induction videos arbitrary: channels) (auto split: sum.splits)

lemma group_json_dataset:
  "group_videos_by_channel_json (JArr (map JObj videos)) = group_videos_by_channel videos"
  by (simp add: group_videos_by_channel_json_def group_videos_by_channel_def group_items_records)


section \<open>Properties of the enrichment run\<close>

lemma paths_differ: "BACKUP_PATH \<noteq> DATA_JSON_PATH"
  by (simp add: BACKUP_PATH_def DATA_JSON_PATH_def)

lemma save_other_path:
  "q \<noteq> p \<Longrightarrow> snd (save_json_data d fs x p) q = fs q"
  by (simp add: save_json_data_def split: write_result.splits sum.splits)

lemma main_after_backup:
  assumes "load_json_data fs DATA_JSON_PATH = Return data"
      and "save_json_data (disk ev) fs data BACKUP_PATH = (Return u, fs1)"
  shows "snd (main ev fs) = fs1 \<or>
         (\<exists>d. snd (main ev fs) = snd (save_json_data (disk ev) fs1 d DATA_JSON_PATH))"
proof (cases "extract_unique_channel_ids_json data")
  case (Inl e)
  with assms show ?thesis by (simp add: main_def)
next
  case (Inr channel_ids)
  note ids = Inr
  show ?thesis
  proof (cases "channel_ids = {}")
    case True
    with assms ids show ?thesis by (simp add: main_def)
  next
    case False
    show ?thesis
    proof (cases "call_fetch (requests_get ev) (YOUTUBE_API_KEY ev) (set_order ev channel_ids)")
      case (Return r)
      obtain avatar_urls reqs where r: "r = (avatar_urls, reqs)" by (cases r)
      show ?thesis
      proof (cases "avatar_urls = []")
        case True
        with assms ids False Return r show ?thesis by (simp add: main_def)
      next
        case nonempty: False
        obtain enriched n e
          where en: "enrich_data_with_avatars_json data avatar_urls = (enriched, n, e)"
          by (cases "enrich_data_with_avatars_json data avatar_urls") auto
        show ?thesis
        proof (cases e)
          case None
          with assms ids False Return r nonempty en
          have "main ev fs = save_json_data (disk ev) fs1 enriched DATA_JSON_PATH"
            by (simp add: main_def)
          then show ?thesis by auto
        next
          case (Some err)
          with assms ids False Return r nonempty en show ?thesis by (simp add: main_def)
        qed
      qed
    next
      case (SysExit n)
      with assms ids False show ?thesis by (simp add: main_def)
    next
      case (Uncaught e)
      with assms ids False show ?thesis by (simp add: main_def)
    qed
  qed
qed

lemma main_up: "main env_up fs_start =
   (Return (), fs_start(BACKUP_PATH \<mapsto> Dataset dataset_abb,
        DATA_JSON_PATH \<mapsto> Dataset [video_a1 @ [(''channelAvatarUrl'', JStr ''a.jpg'')],
         video_a2 @ [(''channelAvatarUrl'', JStr ''a.jpg'')], video_b]))"
  by (simp add: main_def load_json_data_def save_json_data_def fs_start_def env_up_def
      extract_unique_channel_ids_json_def enrich_data_with_avatars_json_def
      dataset_abb_def video_a1_def video_a2_def video_b_def
      call_fetch_def fetch_channel_avatars_batch_def PLACEHOLDER_KEY_def py_range.simps
      py_slice_def net_a_def process_response_def process_item_def item_a_def QUALITIES_def
      Let_def BACKUP_PATH_def DATA_JSON_PATH_def)

lemma main_down: "main env_down fs_start =
   (SysExit 1, fs_start(BACKUP_PATH \<mapsto> Dataset dataset_abb))"
  by (simp add: main_def load_json_data_def save_json_data_def fs_start_def env_down_def
      extract_unique_channel_ids_json_def
      dataset_abb_def video_a1_def video_a2_def video_b_def
      call_fetch_def fetch_channel_avatars_batch_def PLACEHOLDER_KEY_def py_range.simps
      py_slice_def net_down_def Let_def BACKUP_PATH_def DATA_JSON_PATH_def)

text \<open>
  C7. Let the dataset file hold \<open>data\<close> when the run starts. If the backup can be
  written, the backup file holds exactly \<open>data\<close>, the dataset as loaded, when the run
  ends, however it ends. If the backup cannot be written the run exits with status 1
  and the dataset file still holds \<open>data\<close>. So whenever the dataset file has changed,
  the backup holds the dataset as it was before the enrichment.
\<close>

theorem backup_before_mutation:
  assumes "fs DATA_JSON_PATH = Some (Dataset data)"
  shows "(disk ev BACKUP_PATH = WriteOk \<longrightarrow> snd (main ev fs) BACKUP_PATH = Some (Dataset data))
       \<and> (disk ev BACKUP_PATH \<noteq> WriteOk \<longrightarrow>
            fst (main ev fs) = SysExit 1 \<and> snd (main ev fs) DATA_JSON_PATH = Some (Dataset data))
       \<and> (snd (main ev fs) DATA_JSON_PATH \<noteq> Some (Dataset data) \<longrightarrow>
            snd (main ev fs) BACKUP_PATH = Some (Dataset data))"
proof -
  have ld: "load_json_data fs DATA_JSON_PATH = Return (JArr (map JObj data))"
    using assms by (simp add: load_json_data_def)
  show ?thesis
  proof (cases "disk ev BACKUP_PATH")
    case WriteOk
    then have sv: "save_json_data (disk ev) fs (JArr (map JObj data)) BACKUP_PATH =
        (Return (), fs(BACKUP_PATH \<mapsto> Dataset data))"
      by (simp add: save_json_data_def)
    from main_after_backup [OF ld sv]
    have "snd (main ev fs) BACKUP_PATH = Some (Dataset data)"
      using paths_differ by (auto simp: save_other_path)
    with WriteOk show ?thesis by simp
  next
    case OpenFails
    then have "main ev fs = (SysExit 1, fs)"
      by (simp add: main_def ld save_json_data_def)
    with OpenFails assms show ?thesis by simp
  next
    case DumpFails
    then have "main ev fs = (SysExit 1, fs(BACKUP_PATH \<mapsto> Damaged))"
      by (simp add: main_def ld save_json_data_def)
    with DumpFails assms paths_differ show ?thesis by simp
  qed
qed

theorem backup_before_mutation_witness:
  "fs_start DATA_JSON_PATH = Some (Dataset dataset_abb)
   \<and> disk env_up BACKUP_PATH = WriteOk
   \<and> snd (main env_up fs_start) BACKUP_PATH = Some (Dataset dataset_abb)
   \<and> snd (main env_up fs_start) DATA_JSON_PATH =
        Some (Dataset [video_a1 @ [(''channelAvatarUrl'', JStr ''a.jpg'')],
                       video_a2 @ [(''channelAvatarUrl'', JStr ''a.jpg'')], video_b])"
proof -
  have h: "fs_start DATA_JSON_PATH = Some (Dataset dataset_abb)"
    by (simp add: fs_start_def)
  have w: "disk env_up BACKUP_PATH = WriteOk"
    by (simp add: env_up_def)
  from backup_before_mutation [where fs = fs_start and data = dataset_abb and ev = env_up, OF h] w h
  show ?thesis
    by (simp add: main_up)
qed

section \<open>Exit status of the enrichment run\<close>

text \<open>A document that is not an array of objects is loaded and backed up like any
  other; here the run then ends with an uncaught \<open>TypeError\<close> at
  \<open>'channelId' in item\<close>.\<close>

lemma main_number_array:
  assumes "fs DATA_JSON_PATH = Some (Document (JArr [JInt 5]))"
      and "disk ev BACKUP_PATH = WriteOk"
  shows "main ev fs = (Uncaught TypeError, fs(BACKUP_PATH \<mapsto> Document (JArr [JInt 5])))"
  using assms
  by (simp add: main_def load_json_data_def save_json_data_def extract_unique_channel_ids_json_def)

lemma extract_loop_strings:
  "string_channel_ids data \<Longrightarrow> \<forall>k\<in>S. \<exists>s. k = KStr s \<Longrightarrow>
   \<exists>ids. extract_loop data S = Inr ids \<and> (\<forall>k\<in>ids. \<exists>s. k = KStr s)"
proof (induction data arbitrary: S)
  case Nil
  then show ?case by simp
next
  case (Cons item rest)
  from Cons.prems(1) have rest: "string_channel_ids rest"
    by (simp add: string_channel_ids_def)
  show ?case
  proof (cases "map_of item ''channelId''")
    case None
    with Cons.IH [OF rest Cons.prems(2)] show ?thesis by simp
  next
    case (Some cid)
    with Cons.prems(1) obtain s where s: "cid = JStr s"
      by (auto simp: string_channel_ids_def split: json.splits)
    from Cons.prems(2) have "\<forall>k\<in>insert (KStr s) S. \<exists>s. k = KStr s" by simp
    from Cons.IH [OF rest this] Some s show ?thesis by simp
  qed
qed

lemma enrich_loop_no_error:
  "string_channel_ids data \<Longrightarrow> snd (snd (enrich_loop data av n)) = None"
proof (induction data arbitrary: n)
  case Nil
  show ?case by simp
next
  case (Cons item rest)
  from Cons.prems have rest: "string_channel_ids rest"
    by (simp add: string_channel_ids_def)
  show ?case
  proof (cases "map_of item ''channelId''")
    case None
    with Cons.IH [OF rest, of n] show ?thesis by simp
  next
    case (Some cid)
    with Cons.prems obtain s where s: "cid = JStr s"
      by (auto simp: string_channel_ids_def split: json.splits)
    with Some Cons.IH [OF rest, of n] Cons.IH [OF rest, of "n + 1"] show ?thesis
      by (simp split: option.splits)
  qed
qed

lemma call_fetch_strings:
  assumes "\<forall>k\<in>set ids. \<exists>s. k = KStr s"
  shows "call_fetch nw api_key ids =
           (if api_key = [] \<or> api_key = PLACEHOLDER_KEY then SysExit 1
            else Return (fetch_loop nw api_key (map (\<lambda>k. the (key_str k)) ids) 50
                   (py_range 0 (length ids) 50) ([], [])))"
proof -
  from assms have "list_all (\<lambda>k. key_str k \<noteq> None) ids"
    by (auto simp: list_all_iff)
  then show ?thesis
    by (simp add: call_fetch_def fetch_channel_avatars_batch_def)
qed

text \<open>
  C3, as the specification states it, fails: with the dataset loaded, both files
  writable, the key configured and two channel ids found, a run on which no avatar is
  retrieved (here every request fails) leaves through \<open>sys.exit(1)\<close> at the test
  \<open>if not avatar_urls\<close>.
\<close>

theorem exit_status_counterexample:
  "load_json_data fs_start DATA_JSON_PATH = Return (JArr (map JObj dataset_abb))
   \<and> disk env_down BACKUP_PATH = WriteOk
   \<and> disk env_down DATA_JSON_PATH = WriteOk
   \<and> YOUTUBE_API_KEY env_down \<noteq> []
   \<and> YOUTUBE_API_KEY env_down \<noteq> PLACEHOLDER_KEY
   \<and> extract_unique_channel_ids_json (JArr (map JObj dataset_abb)) = Inr {KStr ''A'', KStr ''B''}
   \<and> {KStr ''A'', KStr ''B''} \<noteq> ({} :: pykey set)
   \<and> fst (main env_down fs_start) = SysExit 1
   \<and> exit_status (fst (main env_down fs_start)) \<noteq> 0"
proof -
  have "extract_unique_channel_ids dataset_abb = Inr {KStr ''A'', KStr ''B''}"
    by (auto simp: extract_unique_channel_ids_def dataset_abb_def video_a1_def video_a2_def
          video_b_def)
  then have x: "extract_unique_channel_ids_json (JArr (map JObj dataset_abb)) =
      Inr {KStr ''A'', KStr ''B''}"
    by (simp only: extract_json_dataset)
  have l: "load_json_data fs_start DATA_JSON_PATH = Return (JArr (map JObj dataset_abb))"
    by (simp add: load_json_data_def fs_start_def)
  have e: "disk env_down BACKUP_PATH = WriteOk" "disk env_down DATA_JSON_PATH = WriteOk"
      "YOUTUBE_API_KEY env_down \<noteq> []" "YOUTUBE_API_KEY env_down \<noteq> PLACEHOLDER_KEY"
    by (simp_all add: env_down_def PLACEHOLDER_KEY_def)
  have m: "fst (main env_down fs_start) = SysExit 1"
      "exit_status (fst (main env_down fs_start)) \<noteq> 0"
    by (simp_all add: main_down)
  have n: "{KStr ''A'', KStr ''B''} \<noteq> ({} :: pykey set)"
    by simp
  from x l e m n show ?thesis
    by (intro conjI)
qed

text \<open>
  C3, amended. Let the dataset file, when it holds a JSON document, hold an array of
  objects whose \<open>channelId\<close> values are strings. Then the run exits with status 0
  exactly when the dataset loads, the backup is written, the set of channel ids is
  not empty, the key is configured, the fetched avatar mapping is not empty and the
  dataset file is written. In every other case it leaves through \<open>sys.exit(1)\<close>: on
  a load failure, a save failure (backup or dataset file), a missing or placeholder
  key, an empty set of channel ids, or an empty avatar mapping.
\<close>

theorem exit_status_cases:
  assumes shape: "\<forall>doc. fs DATA_JSON_PATH = Some (Document doc) \<longrightarrow>
                    (\<exists>data. doc = JArr (map JObj data) \<and> string_channel_ids data)"
      and order: "\<forall>doc ids. fs DATA_JSON_PATH = Some (Document doc)
                    \<and> extract_unique_channel_ids_json doc = Inr ids \<longrightarrow> set (set_order ev ids) = ids"
  shows "(exit_status (fst (main ev fs)) = 0 \<longleftrightarrow>
           (\<exists>doc ids avatar_urls reqs.
              load_json_data fs DATA_JSON_PATH = Return doc
            \<and> disk ev BACKUP_PATH = WriteOk
            \<and> extract_unique_channel_ids_json doc = Inr ids \<and> ids \<noteq> {}
            \<and> YOUTUBE_API_KEY ev \<noteq> [] \<and> YOUTUBE_API_KEY ev \<noteq> PLACEHOLDER_KEY
            \<and> call_fetch (requests_get ev) (YOUTUBE_API_KEY ev) (set_order ev ids)
                = Return (avatar_urls, reqs)
            \<and> avatar_urls \<noteq> []
            \<and> disk ev DATA_JSON_PATH = WriteOk))
       \<and> (exit_status (fst (main ev fs)) \<noteq> 0 \<longrightarrow> fst (main ev fs) = SysExit 1)"
proof (cases "\<exists>doc. fs DATA_JSON_PATH = Some (Document doc)")
  case False
  then have "load_json_data fs DATA_JSON_PATH = SysExit 1"
    by (auto simp: load_json_data_def split: option.splits content.splits)
  then show ?thesis by (simp add: main_def)
next
  case True
  then obtain doc where d: "fs DATA_JSON_PATH = Some (Document doc)" by blast
  with shape obtain data where doc: "doc = JArr (map JObj data)" and sd: "string_channel_ids data"
    by blast
  from d doc have ld: "load_json_data fs DATA_JSON_PATH = Return doc"
    by (simp add: load_json_data_def)
  show ?thesis
  proof (cases "disk ev BACKUP_PATH = WriteOk")
    case False
    then obtain fs1 where "save_json_data (disk ev) fs doc BACKUP_PATH = (SysExit 1, fs1)"
      by (cases "disk ev BACKUP_PATH") (auto simp: save_json_data_def)
    then have "fst (main ev fs) = SysExit 1"
      by (simp add: main_def ld)
    with False show ?thesis by simp
  next
    case True
    note bk = True
    with doc have sv: "save_json_data (disk ev) fs doc BACKUP_PATH =
        (Return (), fs(BACKUP_PATH \<mapsto> Document doc))"
      by (simp add: save_json_data_def)
    from extract_loop_strings [OF sd, of "{}"] obtain ids
      where ex0: "extract_unique_channel_ids data = Inr ids" and ks: "\<forall>k\<in>ids. \<exists>s. k = KStr s"
      by (auto simp: extract_unique_channel_ids_def)
    from ex0 doc have ex: "extract_unique_channel_ids_json doc = Inr ids"
      by (simp only: extract_json_dataset)
    from order d ex have so: "set (set_order ev ids) = ids" by blast
    with ks have "\<forall>k\<in>set (set_order ev ids). \<exists>s. k = KStr s" by simp
    note cf = call_fetch_strings [OF this, of "requests_get ev" "YOUTUBE_API_KEY ev"]
    show ?thesis
    proof (cases "ids = {}")
      case True
      with ld sv ex show ?thesis by (simp add: main_def)
    next
      case False
      note ne = False
      show ?thesis
      proof (cases "YOUTUBE_API_KEY ev = [] \<or> YOUTUBE_API_KEY ev = PLACEHOLDER_KEY")
        case True
        with cf have "call_fetch (requests_get ev) (YOUTUBE_API_KEY ev) (set_order ev ids) = SysExit 1"
          by simp
        with ld sv ex ne have "fst (main ev fs) = SysExit 1"
          by (simp add: main_def)
        with True show ?thesis by auto
      next
        case False
        note key = False
        with cf obtain avatar_urls reqs where
          ret: "call_fetch (requests_get ev) (YOUTUBE_API_KEY ev) (set_order ev ids) = Return (avatar_urls, reqs)"
          by (cases "fetch_loop (requests_get ev) (YOUTUBE_API_KEY ev)
                (map (\<lambda>k. the (key_str k)) (set_order ev ids)) 50
                (py_range 0 (length (set_order ev ids)) 50) ([], [])") auto
        show ?thesis
        proof (cases "avatar_urls = []")
          case True
          with ld sv ex ne ret have "fst (main ev fs) = SysExit 1"
            by (simp add: main_def)
          with ld ex ret True show ?thesis by auto
        next
          case False
          note av = False
          obtain enriched n where en0: "enrich_data_with_avatars data avatar_urls = (enriched, n, None)"
            using enrich_loop_no_error [OF sd, of avatar_urls 0]
            by (cases "enrich_data_with_avatars data avatar_urls")
               (auto simp: enrich_data_with_avatars_def)
          with doc have en: "enrich_data_with_avatars_json doc avatar_urls =
              (JArr (map JObj enriched), n, None)"
            by (simp add: enrich_json_dataset)
          with ld sv ex ne ret av have m: "main ev fs =
              save_json_data (disk ev) (fs(BACKUP_PATH \<mapsto> Document doc))
                (JArr (map JObj enriched)) DATA_JSON_PATH"
            by (simp add: main_def)
          show ?thesis
          proof (cases "disk ev DATA_JSON_PATH = WriteOk")
            case True
            with m have "fst (main ev fs) = Return ()"
              by (simp add: save_json_data_def)
            with ld bk ex ne key ret av True show ?thesis by auto
          next
            case False
            with m have "fst (main ev fs) = SysExit 1"
              by (simp add: save_json_data_def split: write_result.splits)
            with False show ?thesis by simp
          qed
        qed
      qed
    qed
  qed
qed

theorem exit_status_cases_witness:
  "string_channel_ids dataset_abb
   \<and> set (set_order env_up {KStr ''A'', KStr ''B''}) = {KStr ''A'', KStr ''B''}
   \<and> exit_status (fst (main env_up fs_start)) = 0
   \<and> call_fetch (requests_get env_up) (YOUTUBE_API_KEY env_up) [KStr ''A'', KStr ''B''] =
        Return ([(KStr ''A'', JStr ''a.jpg'')],
                [([''A'', ''B''], channels_request ''k'' [''A'', ''B''])])"
proof -
  have s: "string_channel_ids dataset_abb"
    by (simp add: string_channel_ids_def dataset_abb_def video_a1_def video_a2_def video_b_def)
  have "extract_unique_channel_ids dataset_abb = Inr {KStr ''A'', KStr ''B''}"
    by (auto simp: extract_unique_channel_ids_def dataset_abb_def video_a1_def video_a2_def
          video_b_def)
  then have x: "extract_unique_channel_ids_json (JArr (map JObj dataset_abb)) =
      Inr {KStr ''A'', KStr ''B''}"
    by (simp only: extract_json_dataset)
  have o: "set (set_order env_up {KStr ''A'', KStr ''B''}) = {KStr ''A'', KStr ''B''}"
    by (simp add: env_up_def)
  have f: "fs_start DATA_JSON_PATH = Some (Document (JArr (map JObj dataset_abb)))"
    by (simp add: fs_start_def)
  have h1: "\<forall>doc. fs_start DATA_JSON_PATH = Some (Document doc) \<longrightarrow>
              (\<exists>data. doc = JArr (map JObj data) \<and> string_channel_ids data)"
    using s f by auto
  have h2: "\<forall>doc ids. fs_start DATA_JSON_PATH = Some (Document doc)
              \<and> extract_unique_channel_ids_json doc = Inr ids \<longrightarrow> set (set_order env_up ids) = ids"
    using x o f by auto
  have c: "call_fetch (requests_get env_up) (YOUTUBE_API_KEY env_up) [KStr ''A'', KStr ''B''] =
        Return ([(KStr ''A'', JStr ''a.jpg'')],
                [([''A'', ''B''], channels_request ''k'' [''A'', ''B''])])"
    by (simp add: call_fetch_def fetch_channel_avatars_batch_def PLACEHOLDER_KEY_def env_up_def
          py_range.simps py_slice_def net_a_def process_response_def process_item_def item_a_def
          QUALITIES_def Let_def)
  have m: "exit_status (fst (main env_up fs_start)) = 0"
    by (simp add: main_up)
  from exit_status_cases [where ev = env_up and fs = fs_start, OF h1 h2] s o c m show ?thesis
    by blast
qed

section \<open>Properties of the Grouper\<close>

lemma append_video_update:
  "append_video k video channels =
     AList.update k ((case map_of channels k of None \<Rightarrow> [] | Some vs \<Rightarrow> vs) @ [video]) channels"
proof (cases "map_of channels k")
  case None
  then have "k \<notin> fst ` set channels" by (simp add: map_of_eq_None_iff)
  then have "AList.update k [video] channels = channels @ [(k, [video])]"
    by (induction channels) auto
  with None show ?thesis by (simp add: append_video_def)
next
  case (Some vs)
  then show ?thesis by (simp add: append_video_def)
qed

lemma append_video_distinct:
  "distinct (map fst channels) \<Longrightarrow> distinct (map fst (append_video k video channels))"
  by (simp add: append_video_update distinct_update)

lemma append_video_map_of:
  "map_of (append_video k video channels) k' =
     (if k' = k then Some ((case map_of channels k of None \<Rightarrow> [] | Some vs \<Rightarrow> vs) @ [video])
      else map_of channels k')"
  by (simp add: append_video_update update_conv')

lemma append_video_sum:
  "sum_list (map (\<lambda>g. length (snd g)) (append_video k video channels)) =
     Suc (sum_list (map (\<lambda>g. length (snd g)) channels))"
  unfolding append_video_update
  by (induction channels) auto

lemma grouped_step:
  assumes "grouped ps channels" and "channel_key_of video = Inr k"
  shows "grouped (ps @ [video]) (append_video k video channels)"
proof -
  from assms(1) have d: "distinct (map fst channels)"
    unfolding grouped_def by (rule conjunct1)
  from assms(1) have m: "map_of channels k =
          (if filter (\<lambda>v. channel_key_of v = Inr k) ps = [] then None
           else Some (filter (\<lambda>v. channel_key_of v = Inr k) ps))" for k
    unfolding grouped_def by blast
  from assms(1) have s: "sum_list (map (\<lambda>g. length (snd g)) channels) = length ps"
    unfolding grouped_def by blast
  have old: "(case map_of channels k of None \<Rightarrow> [] | Some vs \<Rightarrow> vs) =
               filter (\<lambda>v. channel_key_of v = Inr k) ps"
    by (simp add: m)
  have "\<forall>k'. map_of (append_video k video channels) k' =
          (if filter (\<lambda>v. channel_key_of v = Inr k') (ps @ [video]) = [] then None
           else Some (filter (\<lambda>v. channel_key_of v = Inr k') (ps @ [video])))"
    using assms(2) by (simp add: append_video_map_of old m)
  moreover have "distinct (map fst (append_video k video channels))"
    using d by (rule append_video_distinct)
  moreover have "sum_list (map (\<lambda>g. length (snd g)) (append_video k video channels)) =
      length (ps @ [video])"
    using s by (simp add: append_video_sum)
  ultimately show ?thesis
    unfolding grouped_def by blast
qed

lemma group_loop_grouped:
  "grouped ps channels \<Longrightarrow> \<forall>v\<in>set rest. \<exists>k. channel_key_of v = Inr k \<Longrightarrow>
   \<exists>result. group_loop rest channels = Inr result \<and> grouped (ps @ rest) result"
proof (induction rest arbitrary: ps channels)
  case Nil
  then show ?case by simp
next
  case (Cons video rest)
  from Cons.prems(2) obtain k where k: "channel_key_of video = Inr k" by auto
  from Cons.prems(2) have r: "\<forall>v\<in>set rest. \<exists>k. channel_key_of v = Inr k" by simp
  from Cons.IH [OF grouped_step [OF Cons.prems(1) k] r] k show ?case by simp
qed

lemma insort_key_sum:
  "sum_list (map (f :: 'a \<Rightarrow> nat) (insort_key g x xs)) = f x + sum_list (map f xs)"
  by (induction xs) auto

lemma sort_key_sum: "sum_list (map (f :: 'a \<Rightarrow> nat) (sort_key g xs)) = sum_list (map f xs)"
  by (induction xs) (auto simp: insort_key_sum)

lemma insort_key_distinct_map:
  "distinct (map h (insort_key g x xs)) = (h x \<notin> h ` set xs \<and> distinct (map h xs))"
  by (induction xs) (auto simp: set_insort_key)

lemma sort_key_distinct_map: "distinct (map h (sort_key g xs)) = distinct (map h xs)"
  by (induction xs) (auto simp: insort_key_distinct_map)

lemma py_sorted_reverse_sum:
  "sum_list (map (f :: 'a \<Rightarrow> nat) (py_sorted_reverse g xs)) = sum_list (map f xs)"
proof -
  have "sum_list (map f (py_sorted_reverse g xs)) = sum_list (rev (map f (sort_key g (rev xs))))"
    by (simp add: py_sorted_reverse_def rev_map)
  also have "\<dots> = sum_list (map f (sort_key g (rev xs)))"
    by (rule sum_list_rev)
  also have "\<dots> = sum_list (map f (rev xs))"
    by (rule sort_key_sum)
  also have "\<dots> = sum_list (rev (map f xs))"
    by (simp add: rev_map)
  also have "\<dots> = sum_list (map f xs)"
    by (rule sum_list_rev)
  finally show ?thesis .
qed

lemma py_sorted_reverse_set: "set (py_sorted_reverse g xs) = set xs"
  by (simp add: py_sorted_reverse_def)

lemma py_sorted_reverse_distinct:
  "distinct (map fst (py_sorted_reverse g xs)) = distinct (map fst xs)"
proof -
  have "distinct (map fst (py_sorted_reverse g xs)) = distinct (rev (map fst (sort_key g (rev xs))))"
    by (simp only: py_sorted_reverse_def rev_map)
  also have "\<dots> = distinct (map fst (rev xs))"
    by (simp only: distinct_rev sort_key_distinct_map)
  also have "\<dots> = distinct (rev (map fst xs))"
    by (simp only: rev_map)
  also have "\<dots> = distinct (map fst xs)"
    by (simp only: distinct_rev)
  finally show ?thesis .
qed

lemma py_sorted_reverse_descending:
  "sorted_wrt (\<ge>) (map g (py_sorted_reverse g xs))"
proof -
  have "sorted (map g (sort_key g (rev xs)))" by simp
  then have "sorted_wrt (\<ge>) (rev (map g (sort_key g (rev xs))))"
    by (simp add: sorted_wrt_rev)
  then show ?thesis by (simp add: py_sorted_reverse_def rev_map)
qed


lemma grouped_member:
  assumes "grouped ps channels"
  shows "(k, vs) \<in> set channels \<longleftrightarrow>
           vs \<noteq> [] \<and> vs = filter (\<lambda>v. channel_key_of v = Inr k) ps"
proof -
  from assms have d: "distinct (map fst channels)"
    unfolding grouped_def by (rule conjunct1)
  from assms have m: "map_of channels k =
          (if filter (\<lambda>v. channel_key_of v = Inr k) ps = [] then None
           else Some (filter (\<lambda>v. channel_key_of v = Inr k) ps))"
    unfolding grouped_def by blast
  from d have "(k, vs) \<in> set channels \<longleftrightarrow> map_of channels k = Some vs"
    by simp
  with m show ?thesis by auto
qed

lemma channel_key_of_iff:
  "channel_key_of v = Inr (k1, k2, k3) \<longleftrightarrow>
     (\<exists>cid title. map_of v ''channelId'' = Some cid \<and> map_of v ''channelTitle'' = Some title
        \<and> py_hash cid = Inr k1 \<and> py_hash title = Inr k2
        \<and> py_hash (case map_of v ''channelAvatarUrl'' of None \<Rightarrow> JStr [] | Some a \<Rightarrow> a) = Inr k3)"
  by (auto simp: channel_key_of_def Let_def split: option.splits sum.splits)

text \<open>A record without \<open>channelId\<close> makes the Grouper raise \<open>KeyError\<close>: the key is read
  with \<open>video['channelId']\<close>.\<close>

lemma grouper_requires_channel_id:
  "map_of video ''channelId'' = None \<Longrightarrow> group_videos_by_channel (video # rest) = Inl KeyError"
  by (simp add: group_videos_by_channel_def channel_key_of_def)

text \<open>
  C8, as the specification states it, fails: the Grouper does not produce groups for
  every record collection. A collection with a record that has no \<open>channelId\<close>, which
  the enrichment run accepts, makes it raise \<open>KeyError\<close>.
\<close>

theorem grouping_counterexample:
  "map_of video_a1 ''channelId'' = Some (JStr ''A'')
   \<and> map_of video_anon ''channelId'' = None
   \<and> group_videos_by_channel [video_a1, video_anon] = Inl KeyError"
  by (simp add: group_videos_by_channel_def channel_key_of_def video_a1_def video_anon_def
        append_video_def)

text \<open>
  C8, amended. For every collection of records that carry \<open>channelId\<close> and
  \<open>channelTitle\<close>, with hashable values there and in \<open>channelAvatarUrl\<close> when it is
  present, the Grouper returns groups with distinct keys; each group is not empty and
  holds exactly the records with its key, in input order; every record is in exactly
  one group, the group of its composite key: the \<open>channelId\<close>, the \<open>channelTitle\<close>,
  and the \<open>channelAvatarUrl\<close> when present, the empty string when not; the sizes of
  the groups add up to the number of records; and the groups are in descending order
  of size.
\<close>

theorem grouping_partition:
  assumes "\<forall>v\<in>set videos. \<exists>cid title k1 k2 k3.
             map_of v ''channelId'' = Some cid \<and> map_of v ''channelTitle'' = Some title
           \<and> py_hash cid = Inr k1 \<and> py_hash title = Inr k2
           \<and> py_hash (case map_of v ''channelAvatarUrl'' of None \<Rightarrow> JStr [] | Some a \<Rightarrow> a) = Inr k3"
  shows "\<exists>channels. group_videos_by_channel videos = Inr channels
     \<and> distinct (map fst channels)
     \<and> (\<forall>g\<in>set channels.
            snd g \<noteq> [] \<and> snd g = filter (\<lambda>v. channel_key_of v = Inr (fst g)) videos)
     \<and> (\<forall>v\<in>set videos. \<exists>!g. g \<in> set channels \<and> v \<in> set (snd g))
     \<and> (\<forall>v\<in>set videos. \<forall>g\<in>set channels.
            v \<in> set (snd g) \<longleftrightarrow> channel_key_of v = Inr (fst g))
     \<and> (\<forall>v\<in>set videos. \<forall>g\<in>set channels.
            v \<in> set (snd g) \<longleftrightarrow>
              (\<exists>cid title. map_of v ''channelId'' = Some cid \<and> map_of v ''channelTitle'' = Some title
                 \<and> py_hash cid = Inr (fst (fst g))
                 \<and> py_hash title = Inr (fst (snd (fst g)))
                 \<and> py_hash (case map_of v ''channelAvatarUrl'' of None \<Rightarrow> JStr [] | Some a \<Rightarrow> a)
                     = Inr (snd (snd (fst g)))))
     \<and> sum_list (map (\<lambda>g. length (snd g)) channels) = length videos
     \<and> sorted_wrt (\<ge>) (map (\<lambda>g. length (snd g)) channels)"
proof -
  have keys: "\<forall>v\<in>set videos. \<exists>k. channel_key_of v = Inr k"
  proof
    fix v assume "v \<in> set videos"
    with assms obtain cid title k1 k2 k3 where
      "map_of v ''channelId'' = Some cid \<and> map_of v ''channelTitle'' = Some title
           \<and> py_hash cid = Inr k1 \<and> py_hash title = Inr k2
           \<and> py_hash (case map_of v ''channelAvatarUrl'' of None \<Rightarrow> JStr [] | Some a \<Rightarrow> a) = Inr k3"
      by blast
    then have "channel_key_of v = Inr (k1, k2, k3)"
      by (simp only: channel_key_of_iff) blast
    then show "\<exists>k. channel_key_of v = Inr k" by blast
  qed
  have "grouped [] []" by (simp add: grouped_def)
  from group_loop_grouped [OF this keys] obtain cs
    where loop: "group_loop videos [] = Inr cs" and g: "grouped videos cs"
    by auto
  let ?r = "py_sorted_reverse (\<lambda>x. length (snd x)) cs"
  have ret: "group_videos_by_channel videos = Inr ?r"
    using loop by (simp add: group_videos_by_channel_def)
  have mem: "\<And>k vs. (k, vs) \<in> set ?r \<longleftrightarrow>
           vs \<noteq> [] \<and> vs = filter (\<lambda>v. channel_key_of v = Inr k) videos"
    using grouped_member [OF g] by (simp only: py_sorted_reverse_set)
  from g have "distinct (map fst cs)"
    unfolding grouped_def by (rule conjunct1)
  then have dist: "distinct (map fst ?r)"
    by (simp only: py_sorted_reverse_distinct)
  have groups: "\<forall>g\<in>set ?r.
      snd g \<noteq> [] \<and> snd g = filter (\<lambda>v. channel_key_of v = Inr (fst g)) videos"
  proof
    fix g assume "g \<in> set ?r"
    then have "(fst g, snd g) \<in> set ?r" by simp
    with mem [of "fst g" "snd g"]
    show "snd g \<noteq> [] \<and> snd g = filter (\<lambda>v. channel_key_of v = Inr (fst g)) videos"
      by blast
  qed
  have inn: "\<forall>v\<in>set videos. \<forall>g\<in>set ?r. v \<in> set (snd g) \<longleftrightarrow> channel_key_of v = Inr (fst g)"
  proof (intro ballI)
    fix v g assume v: "v \<in> set videos" and "g \<in> set ?r"
    with groups have "snd g = filter (\<lambda>v. channel_key_of v = Inr (fst g)) videos" by blast
    then have "v \<in> set (snd g) \<longleftrightarrow> v \<in> set (filter (\<lambda>v. channel_key_of v = Inr (fst g)) videos)"
      by simp
    with v show "v \<in> set (snd g) \<longleftrightarrow> channel_key_of v = Inr (fst g)" by simp
  qed
  have fields: "\<forall>v\<in>set videos. \<forall>g\<in>set ?r.
            v \<in> set (snd g) \<longleftrightarrow>
              (\<exists>cid title. map_of v ''channelId'' = Some cid \<and> map_of v ''channelTitle'' = Some title
                 \<and> py_hash cid = Inr (fst (fst g))
                 \<and> py_hash title = Inr (fst (snd (fst g)))
                 \<and> py_hash (case map_of v ''channelAvatarUrl'' of None \<Rightarrow> JStr [] | Some a \<Rightarrow> a)
                     = Inr (snd (snd (fst g))))"
  proof (intro ballI)
    fix v g assume v: "v \<in> set videos" and gr: "g \<in> set ?r"
    have "fst g = (fst (fst g), fst (snd (fst g)), snd (snd (fst g)))" by simp
    then have "channel_key_of v = Inr (fst g) \<longleftrightarrow>
        channel_key_of v = Inr (fst (fst g), fst (snd (fst g)), snd (snd (fst g)))"
      by simp
    with inn v gr show "v \<in> set (snd g) \<longleftrightarrow>
              (\<exists>cid title. map_of v ''channelId'' = Some cid \<and> map_of v ''channelTitle'' = Some title
                 \<and> py_hash cid = Inr (fst (fst g))
                 \<and> py_hash title = Inr (fst (snd (fst g)))
                 \<and> py_hash (case map_of v ''channelAvatarUrl'' of None \<Rightarrow> JStr [] | Some a \<Rightarrow> a)
                     = Inr (snd (snd (fst g))))"
      by (simp only: channel_key_of_iff)
  qed
  have one: "\<forall>v\<in>set videos. \<exists>!g. g \<in> set ?r \<and> v \<in> set (snd g)"
  proof
    fix v assume v: "v \<in> set videos"
    with keys obtain k where k: "channel_key_of v = Inr k" by blast
    let ?vs = "filter (\<lambda>v. channel_key_of v = Inr k) videos"
    from v k have vin: "v \<in> set ?vs" by simp
    have ne: "?vs \<noteq> []"
    proof
      assume "?vs = []"
      with vin show False by (simp only: set_simps empty_iff)
    qed
    from ne mem [of k ?vs] have in_r: "(k, ?vs) \<in> set ?r" by blast
    show "\<exists>!g. g \<in> set ?r \<and> v \<in> set (snd g)"
    proof (rule ex1I [of _ "(k, ?vs)"])
      from in_r vin show "(k, ?vs) \<in> set ?r \<and> v \<in> set (snd (k, ?vs))" by simp
    next
      fix g assume a: "g \<in> set ?r \<and> v \<in> set (snd g)"
      with inn v have "channel_key_of v = Inr (fst g)" by blast
      with k have fk: "fst g = k" by simp
      from a groups have "snd g = filter (\<lambda>v. channel_key_of v = Inr (fst g)) videos" by blast
      with fk have "snd g = ?vs" by simp
      with fk show "g = (k, ?vs)" by (simp add: prod_eq_iff)
    qed
  qed
  from g have "sum_list (map (\<lambda>g. length (snd g)) cs) = length videos"
    unfolding grouped_def by simp
  then have total: "sum_list (map (\<lambda>g. length (snd g)) ?r) = length videos"
    by (simp only: py_sorted_reverse_sum)
  have desc: "sorted_wrt (\<ge>) (map (\<lambda>g. length (snd g)) ?r)"
    by (rule py_sorted_reverse_descending)
  show ?thesis
    apply (rule exI [of _ ?r])
    apply (intro conjI)
    subgoal by (rule ret)
    subgoal by (rule dist)
    subgoal by (rule groups)
    subgoal by (rule one)
    subgoal by (rule inn)
    subgoal by (rule fields)
    subgoal by (rule total)
    subgoal by (rule desc)
    done
qed

theorem grouping_partition_witness:
  "group_videos_by_channel [video_b, video_c1, video_a1, video_c2, video_a2, video_c3] =
       Inr [((KStr ''A'', KStr ''Alpha'', KStr []), [video_a1, video_a2]),
            ((KStr ''C'', KStr ''Gamma'', KStr []), [video_c2, video_c3]),
            ((KStr ''B'', KStr ''Beta'', KStr []), [video_b]),
            ((KStr ''C'', KStr ''Gamma'', KStr ''c.jpg''), [video_c1])]
   \<and> channel_key_of video_c1 = Inr (KStr ''C'', KStr ''Gamma'', KStr ''c.jpg'')
   \<and> channel_key_of video_c2 = Inr (KStr ''C'', KStr ''Gamma'', KStr [])
   \<and> channel_key_of video_c3 = Inr (KStr ''C'', KStr ''Gamma'', KStr [])"
proof -
  have k: "channel_key_of video_b = Inr (KStr ''B'', KStr ''Beta'', KStr [])"
      "channel_key_of video_a1 = Inr (KStr ''A'', KStr ''Alpha'', KStr [])"
      "channel_key_of video_a2 = Inr (KStr ''A'', KStr ''Alpha'', KStr [])"
      "channel_key_of video_c1 = Inr (KStr ''C'', KStr ''Gamma'', KStr ''c.jpg'')"
      "channel_key_of video_c2 = Inr (KStr ''C'', KStr ''Gamma'', KStr [])"
      "channel_key_of video_c3 = Inr (KStr ''C'', KStr ''Gamma'', KStr [])"
    by (simp_all add: channel_key_of_def video_b_def video_a1_def video_a2_def video_c1_def
          video_c2_def video_c3_def)
  have h: "\<forall>v\<in>set [video_b, video_c1, video_a1, video_c2, video_a2, video_c3].
           \<exists>cid title k1 k2 k3.
             map_of v ''channelId'' = Some cid \<and> map_of v ''channelTitle'' = Some title
           \<and> py_hash cid = Inr k1 \<and> py_hash title = Inr k2
           \<and> py_hash (case map_of v ''channelAvatarUrl'' of None \<Rightarrow> JStr [] | Some a \<Rightarrow> a) = Inr k3"
    by (simp add: video_b_def video_a1_def video_a2_def video_c1_def video_c2_def video_c3_def)
  have ev: "group_videos_by_channel [video_b, video_c1, video_a1, video_c2, video_a2, video_c3] =
       Inr [((KStr ''A'', KStr ''Alpha'', KStr []), [video_a1, video_a2]),
            ((KStr ''C'', KStr ''Gamma'', KStr []), [video_c2, video_c3]),
            ((KStr ''B'', KStr ''Beta'', KStr []), [video_b]),
            ((KStr ''C'', KStr ''Gamma'', KStr ''c.jpg''), [video_c1])]"
    by (simp add: group_videos_by_channel_def k append_video_def py_sorted_reverse_def)
  from grouping_partition [OF h] k ev show ?thesis
    by blast
qed

section \<open>The report on an empty dataset\<close>

text \<open>
  C10. When the data file holds an empty collection and the page can be written, the
  run groups nothing, renders the page for no channel, writes it to the output file,
  and then raises \<open>ZeroDivisionError\<close> in the statistics, where the number of videos
  is divided by the number of groups, which is 0. Nothing handles the exception.
\<close>

theorem empty_dataset_division_by_zero:
  assumes "fs data_file = Some (Dataset [])"
      and "out_disk ev output_file = WriteOk"
  shows "group_videos_by_channel [] = Inr []
     \<and> group_videos_by_channel_json (JArr []) = Inr []
     \<and> py_truediv (length ([] :: video list)) (length ([] :: channel_group list)) = Inl ZeroDivisionError
     \<and> generate_html (tpl ev) (clock ev) [] =
         Inr (page_head (tpl ev) 0 0 @ page_foot (tpl ev) (clock ev))
     \<and> report_main ev fs =
         (Uncaught ZeroDivisionError,
          fs(output_file \<mapsto> Page (page_head (tpl ev) 0 0 @ page_foot (tpl ev) (clock ev))))"
proof -
  have g: "group_videos_by_channel [] = Inr []"
    by (simp add: group_videos_by_channel_def py_sorted_reverse_def)
  have gj: "group_videos_by_channel_json (JArr []) = Inr []"
    by (simp add: group_videos_by_channel_json_def py_sorted_reverse_def)
  have d: "py_truediv (length ([] :: video list)) (length ([] :: channel_group list)) = Inl ZeroDivisionError"
    by (simp add: py_truediv_def)
  have h: "generate_html (tpl ev) (clock ev) [] =
         Inr (page_head (tpl ev) 0 0 @ page_foot (tpl ev) (clock ev))"
    by (simp add: generate_html_def)
  have l: "load_youtube_data fs data_file = Inr (JArr [])"
    using assms(1) by (simp add: load_youtube_data_def)
  have "report_main ev fs =
         (Uncaught ZeroDivisionError,
          fs(output_file \<mapsto> Page (page_head (tpl ev) 0 0 @ page_foot (tpl ev) (clock ev))))"
    using assms by (simp add: report_main_def l gj h py_truediv_def)
  with g gj d h show ?thesis by blast
qed

theorem empty_dataset_division_by_zero_witness:
  "fs_empty data_file = Some (Dataset [])
   \<and> out_disk report_env_ok output_file = WriteOk
   \<and> report_main report_env_ok fs_empty =
       (Uncaught ZeroDivisionError, fs_empty(output_file \<mapsto> Page ''<html></html>''))"
proof -
  have a: "fs_empty data_file = Some (Dataset [])"
    by (simp add: fs_empty_def)
  have b: "out_disk report_env_ok output_file = WriteOk"
    by (simp add: report_env_ok_def)
  have c: "page_head (tpl report_env_ok) 0 0 @ page_foot (tpl report_env_ok) (clock report_env_ok)
            = ''<html></html>''"
    by (simp add: report_env_ok_def tpl_plain_def)
  from empty_dataset_division_by_zero [where fs = fs_empty and ev = report_env_ok, OF a b] a b c
  show ?thesis
    by simp
qed

end
